theory Spec2Isabelle
  imports Main "HOL-Library.Sublist"
begin

section \<open>Python text\<close>

text \<open>
  A Python \<^verbatim>\<open>str\<close> is a sequence of Unicode code points; a code point is a natural number.
  \<open>lit\<close> turns an ASCII literal of the source into such a sequence; the few characters of
  the source beyond ASCII (dashes, box-drawing characters) are written as their code points.
\<close>

type_synonym str = "nat list"

definition lit :: "string \<Rightarrow> str" where
  "lit s = map of_char s"

text \<open>
  \<^verbatim>\<open>str.isspace\<close> on one character, and \<^verbatim>\<open>str.strip()\<close> with no argument, which removes the
  whitespace characters at both ends (the table of CPython 3.11, Unicode 14.0).
\<close>

definition isspace :: "nat \<Rightarrow> bool" where
  "isspace c = (c \<in> set [0x9, 0xA, 0xB, 0xC, 0xD, 0x1C, 0x1D, 0x1E, 0x1F, 0x20, 0x85, 0xA0,
     0x1680, 0x2000, 0x2001, 0x2002, 0x2003, 0x2004, 0x2005, 0x2006, 0x2007, 0x2008, 0x2009,
     0x200A, 0x2028, 0x2029, 0x202F, 0x205F, 0x3000])"

definition strip :: "str \<Rightarrow> str" where
  "strip s = rev (dropWhile isspace (rev (dropWhile isspace s)))"

text \<open>
  \<^verbatim>\<open>int(s)\<close> on a string, in base 10: \<open>None\<close> stands for the \<^verbatim>\<open>ValueError\<close>. Every Unicode
  decimal digit counts as a digit; the digits of one script are ten consecutive code points,
  and \<open>decimal_zeros\<close> lists the zero of each. Digits may be separated by single underscores,
  a sign may stand in front, whitespace around the number is skipped, and a number of more
  than \<open>int_max_str_digits\<close> digits is refused.
\<close>

definition decimal_zeros :: "nat list" where
  "decimal_zeros = [0x30, 0x660, 0x6F0, 0x7C0, 0x966, 0x9E6, 0xA66, 0xAE6, 0xB66, 0xBE6, 0xC66,
     0xCE6, 0xD66, 0xDE6, 0xE50, 0xED0, 0xF20, 0x1040, 0x1090, 0x17E0, 0x1810, 0x1946, 0x19D0,
     0x1A80, 0x1A90, 0x1B50, 0x1BB0, 0x1C40, 0x1C50, 0xA620, 0xA8D0, 0xA900, 0xA9D0, 0xA9F0,
     0xAA50, 0xABF0, 0xFF10, 0x104A0, 0x10D30, 0x11066, 0x110F0, 0x11136, 0x111D0, 0x112F0,
     0x11450, 0x114D0, 0x11650, 0x116C0, 0x11730, 0x118E0, 0x11950, 0x11C50, 0x11D50, 0x11DA0,
     0x16A60, 0x16AC0, 0x16B50, 0x1D7CE, 0x1D7D8, 0x1D7E2, 0x1D7EC, 0x1D7F6, 0x1E140, 0x1E2F0,
     0x1E950, 0x1FBF0]"

definition decimal :: "nat \<Rightarrow> nat option" where
  "decimal c = (case filter (\<lambda>z. z \<le> c \<and> c < z + 10) decimal_zeros of
                  [] \<Rightarrow> None
                | z # _ \<Rightarrow> Some (c - z))"

definition int_space :: "nat \<Rightarrow> bool" where
  "int_space c = (c \<in> set [0x9, 0xA, 0xB, 0xC, 0xD, 0x20] \<or> (127 \<le> c \<and> isspace c))"

fun int_digits :: "str \<Rightarrow> nat \<Rightarrow> nat \<Rightarrow> (nat \<times> nat) option" where
  "int_digits [] n k = Some (n, k)"
| "int_digits (c # cs) n k =
     (if c = 0x5F then
        (case cs of
           [] \<Rightarrow> None
         | d # ds \<Rightarrow>
             (case decimal d of
                None \<Rightarrow> None
              | Some v \<Rightarrow> int_digits ds (10 * n + v) (k + 1)))
      else
        (case decimal c of
           None \<Rightarrow> None
         | Some v \<Rightarrow> int_digits cs (10 * n + v) (k + 1)))"

definition int_max_str_digits :: nat where
  "int_max_str_digits = 4300"

definition py_int :: "str \<Rightarrow> int option" where
  "py_int s =
     (let t = rev (dropWhile int_space (rev (dropWhile int_space s)));
          neg = (t \<noteq> [] \<and> hd t = 0x2D);
          body = (if t \<noteq> [] \<and> (hd t = 0x2B \<or> hd t = 0x2D) then tl t else t)
      in case body of
           [] \<Rightarrow> None
         | c # cs \<Rightarrow>
             (case decimal c of
                None \<Rightarrow> None
              | Some v \<Rightarrow>
                  (case int_digits cs v 1 of
                     None \<Rightarrow> None
                   | Some (n, k) \<Rightarrow>
                       if int_max_str_digits < k then None
                       else Some (if neg then - int n else int n))))"

text \<open>\<^verbatim>\<open>str(n)\<close> for a natural number, and the f-string's \<open>{i}\<close> of one.\<close>

function str_of_nat :: "nat \<Rightarrow> str" where
  "str_of_nat n = (if n < 10 then [0x30 + n] else str_of_nat (n div 10) @ [0x30 + n mod 10])"
  by pat_completeness auto
termination
  by (relation "measure id") auto

declare str_of_nat.simps [simp del]

text \<open>
  \<open>unlines\<close> is the text of a triple-quoted literal whose lines are given one by one: every
  line ends with a newline. \<open>split_on\<close> is \<^verbatim>\<open>s.split(sep)\<close> for a separator of one character.
\<close>

definition unlines :: "str list \<Rightarrow> str" where
  "unlines ls = concat (map (\<lambda>l. l @ [0xA]) ls)"

fun split_on :: "nat \<Rightarrow> str \<Rightarrow> str list" where
  "split_on sep [] = [[]]"
| "split_on sep (c # cs) =
     (if c = sep then [] # split_on sep cs
      else (case split_on sep cs of
              [] \<Rightarrow> [[c]]
            | x # xs \<Rightarrow> (c # x) # xs))"

section \<open>The calendar date\<close>

text \<open>
  \<^verbatim>\<open>date.today()\<close> reads the system clock; the date it returns is a field of the world
  below. A \<^verbatim>\<open>datetime.date\<close> has a year from 1 to 9999, a month from 1 to 12 and a day
  from 1 to 31 (\<open>valid_date\<close>; the length of the month plays no role here), and
  \<^verbatim>\<open>isoformat()\<close> prints it as \<^verbatim>\<open>%04d-%02d-%02d\<close>.
\<close>

record date =
  year :: nat
  month :: nat
  day :: nat

definition valid_date :: "date \<Rightarrow> bool" where
  "valid_date d = (1 \<le> year d \<and> year d \<le> 9999 \<and> 1 \<le> month d \<and> month d \<le> 12
                   \<and> 1 \<le> day d \<and> day d \<le> 31)"

definition zfill :: "nat \<Rightarrow> str \<Rightarrow> str" where
  "zfill w s = replicate (w - length s) 0x30 @ s"

definition isoformat :: "date \<Rightarrow> str" where
  "isoformat d = zfill 4 (str_of_nat (year d)) @ [0x2D] @ zfill 2 (str_of_nat (month d))
                 @ [0x2D] @ zfill 2 (str_of_nat (day d))"

definition today :: "date \<Rightarrow> str" where
  "today clock = isoformat clock"

section \<open>Template content\<close>

text \<open>
  The templates of the source, line by line. The three rendering functions take what the
  source's f-strings interpolate; \<open>overview_template\<close> also takes the date the clock shows,
  which the source reads through \<^verbatim>\<open>_today()\<close>.
\<close>

definition SPEC_FORMAT :: "str" where
  \<open>SPEC_FORMAT = unlines
    [lit ''# Spec Format Guide'',
     [],
     lit ''This document explains how to write specifications for this project.'',
     lit ''Both humans and AI assistants should reference this for consistency.'',
     [],
     lit ''## Status Labels'',
     [],
     lit ''Every spec should have a status in its frontmatter:'',
     [],
     lit ''- **Draft** '' @ [0x2014] @ lit '' Initial writing, not yet reviewed'',
     lit ''- **In Review** '' @ [0x2014] @ lit '' Ready for feedback'',
     lit ''- **Approved** '' @ [0x2014] @ lit '' Accepted, ready for implementation'',
     lit ''- **Implemented** '' @ [0x2014] @ lit '' Code exists that fulfills this spec'',
     lit ''- **Deprecated** '' @ [0x2014] @ lit '' No longer applicable'',
     [],
     lit ''## Spec Types'',
     [],
     lit ''### Requirements Specs'',
     [],
     lit ''Describe *what* the system should do from the user's perspective.'',
     [],
     lit ''- Use **[MUST]**, **[SHOULD]**, **[COULD]** to indicate priority'',
     lit ''- Write as capabilities, not implementation details'',
     lit ''- Be specific enough to test against'',
     [],
     lit ''Example:'',
     lit ''```markdown'',
     lit ''- **[MUST]** Calculate RMS amplitude for each time window'',
     lit ''- **[SHOULD]** Support configurable window sizes (default: 1 second)'',
     lit ''- **[COULD]** Export results to CSV format'',
     lit ''```'',
     [],
     lit ''### Architecture Specs'',
     [],
     lit ''Describe *how* components fit together.'',
     [],
     lit ''- Include diagrams where helpful (Mermaid works well)'',
     lit ''- Define interfaces between components'',
     lit ''- Document data flow'',
     [],
     lit ''### Algorithm Specs'',
     [],
     lit ''Describe computational methods in detail.'',
     [],
     lit ''- Reference source papers/methods'',
     lit ''- Include mathematical notation where precise'',
     lit ''- Define expected inputs, outputs, and edge cases'',
     lit ''- Specify validation approach'',
     [],
     lit ''### Decision Records (ADRs)'',
     [],
     lit ''Document significant decisions and their rationale.'',
     [],
     lit ''- Context: What prompted this decision?'',
     lit ''- Decision: What did we decide?'',
     lit ''- Consequences: What are the tradeoffs?'',
     [],
     lit ''## Markdown Conventions'',
     [],
     lit ''- Use fenced code blocks with language tags'',
     lit ''- Use tables for structured comparisons'',
     lit ''- Cross-reference other specs with relative links: `[see requirements](../01-requirements/functional.md)`'',
     [],
     lit ''## Change Records'',
     [],
     lit ''Each spec should end with a change record:'',
     [],
     lit ''```markdown'',
     lit ''## Change Record'',
     [],
     lit ''- YYYY-MM-DD: Initial draft'',
     lit ''- YYYY-MM-DD: Added edge case handling per review feedback'',
     lit ''```'']\<close>

definition overview_template :: "str \<Rightarrow> str \<Rightarrow> date \<Rightarrow> str" where
  \<open>overview_template name description clock = unlines
    [lit ''# '' @ name,
     [],
     lit ''**Status**: Draft'',
     [],
     description,
     [],
     lit ''<!--'',
     lit ''This is your project's overview spec. It should answer:'',
     lit ''- What problem does this project solve?'',
     lit ''- Who is it for?'',
     lit ''- What are the key capabilities?'',
     [],
     lit ''Keep it high-level. Details go in requirements and architecture specs.'',
     [],
     lit ''Delete these instructions once you've written the overview.'',
     lit ''-->'',
     [],
     lit ''## Problem Statement'',
     [],
     lit ''[What problem are you solving? Why does it matter?]'',
     [],
     lit ''## Goals'',
     [],
     lit ''[What should this project accomplish?]'',
     [],
     lit ''## Non-Goals'',
     [],
     lit ''[What is explicitly out of scope?]'',
     [],
     lit ''## Key Components'',
     [],
     lit ''[High-level overview of the main parts]'',
     [],
     lit ''## Change Record'',
     [],
     lit ''- '' @ today clock @ lit '': Initial draft'']\<close>

definition FUNCTIONAL_REQUIREMENTS :: "str" where
  \<open>FUNCTIONAL_REQUIREMENTS = unlines
    [lit ''# Functional Requirements'',
     [],
     lit ''**Status**: Draft'',
     [],
     lit ''<!--'',
     lit ''This file describes WHAT your system should do from the user's perspective.'',
     lit ''Write these as capabilities, not implementation details.'',
     [],
     lit ''Tips:'',
     lit ''- Start each requirement with a verb (Calculate, Display, Export...)'',
     lit ''- Use [MUST], [SHOULD], [COULD] to prioritize (see spec-format.md)'',
     lit ''- Be specific enough to test against later'',
     lit ''- It's okay to start sparse and add detail as you learn more'',
     [],
     lit ''Delete these instructions once you've got the hang of it.'',
     lit ''-->'',
     [],
     lit ''## Overview'',
     [],
     lit ''[Brief context for what you're building]'',
     [],
     lit ''## Core Capabilities'',
     [],
     lit ''- **[MUST]** [Required capability]'',
     lit ''- **[MUST]** [Another required capability]'',
     lit ''- **[SHOULD]** [Important but deferrable]'',
     lit ''- **[COULD]** [Nice to have]'',
     [],
     lit ''## Input/Output'',
     [],
     lit ''### Inputs'',
     [],
     lit ''[What data or parameters does the system accept?]'',
     [],
     lit ''### Outputs'',
     [],
     lit ''[What does the system produce?]'',
     [],
     lit ''## Error Handling'',
     [],
     lit ''[How should the system behave when things go wrong?]'',
     [],
     lit ''## Open Questions'',
     [],
     lit ''[What's still unclear? What needs discussion?]'',
     [],
     lit ''## Change Record'',
     [],
     lit ''- YYYY-MM-DD: Initial draft'']\<close>

definition ADR_TEMPLATE :: "str" where
  \<open>ADR_TEMPLATE = unlines
    [lit ''# ADR-000: Decision Record Template'',
     [],
     lit ''**Status**: Template'',
     [],
     lit ''**Date**: YYYY-MM-DD'',
     [],
     lit ''<!--'',
     lit ''Architecture Decision Records (ADRs) capture significant technical decisions.'',
     lit ''Copy this template for each new decision. Number them sequentially (ADR-001, ADR-002, etc.).'',
     [],
     lit ''A good ADR explains:'',
     lit ''- What decision was made'',
     lit ''- Why it was made (context and constraints)'',
     lit ''- What alternatives were considered'',
     lit ''- What the consequences are'',
     [],
     lit ''Delete these instructions when writing a real ADR.'',
     lit ''-->'',
     [],
     lit ''## Context'',
     [],
     lit ''[What is the issue? What forces are at play? What constraints exist?]'',
     [],
     lit ''## Decision'',
     [],
     lit ''[What did you decide to do?]'',
     [],
     lit ''## Alternatives Considered'',
     [],
     lit ''### Alternative 1: [Name]'',
     [],
     lit ''[Description, pros, cons]'',
     [],
     lit ''### Alternative 2: [Name]'',
     [],
     lit ''[Description, pros, cons]'',
     [],
     lit ''## Consequences'',
     [],
     lit ''### Positive'',
     [],
     lit ''- [Benefit 1]'',
     lit ''- [Benefit 2]'',
     [],
     lit ''### Negative'',
     [],
     lit ''- [Tradeoff 1]'',
     lit ''- [Tradeoff 2]'',
     [],
     lit ''### Neutral'',
     [],
     lit ''- [Side effect that's neither good nor bad]'',
     [],
     lit ''## Change Record'',
     [],
     lit ''- YYYY-MM-DD: Initial decision'']\<close>

definition DATA_FLOW_TEMPLATE :: "str" where
  \<open>DATA_FLOW_TEMPLATE = unlines
    [lit ''# Data Flow Architecture'',
     [],
     lit ''**Status**: Draft'',
     [],
     lit ''<!--'',
     lit ''This spec describes how data moves through your pipeline.'',
     lit ''Useful for data processing, ETL, and analysis projects.'',
     [],
     lit ''Delete these instructions once you've documented your data flow.'',
     lit ''-->'',
     [],
     lit ''## Overview'',
     [],
     lit ''[High-level description of the data flow]'',
     [],
     lit ''## Pipeline Stages'',
     [],
     lit ''### Stage 1: Ingestion'',
     [],
     lit ''**Input**: [Source format, location]'',
     lit ''**Output**: [Intermediate format]'',
     lit ''**Processing**: [What happens here]'',
     [],
     lit ''### Stage 2: Processing'',
     [],
     lit ''**Input**: [From previous stage]'',
     lit ''**Output**: [Transformed data]'',
     lit ''**Processing**: [What happens here]'',
     [],
     lit ''### Stage 3: Output'',
     [],
     lit ''**Input**: [From previous stage]'',
     lit ''**Output**: [Final format, destination]'',
     lit ''**Processing**: [What happens here]'',
     [],
     lit ''## Data Formats'',
     [],
     lit ''[Describe key data structures, file formats, schemas]'',
     [],
     lit ''## Error Handling'',
     [],
     lit ''[What happens when a stage fails?]'',
     [],
     lit ''## Change Record'',
     [],
     lit ''- YYYY-MM-DD: Initial draft'']\<close>

definition ALGORITHM_SPEC_TEMPLATE :: "str" where
  \<open>ALGORITHM_SPEC_TEMPLATE = unlines
    [lit ''# Algorithm: [Name]'',
     [],
     lit ''**Status**: Draft'',
     [],
     lit ''<!--'',
     lit ''This spec describes a computational algorithm in detail.'',
     lit ''Reference papers, define mathematics precisely, specify edge cases.'',
     [],
     lit ''Delete these instructions once you've documented the algorithm.'',
     lit ''-->'',
     [],
     lit ''## Overview'',
     [],
     lit ''[What does this algorithm do? Where does it come from?]'',
     [],
     lit ''## References'',
     [],
     lit ''- [Paper/textbook citation]'',
     lit ''- [Implementation reference, if any]'',
     [],
     lit ''## Mathematical Definition'',
     [],
     lit ''[Precise mathematical description. Use LaTeX notation if helpful.]'',
     [],
     lit ''## Inputs'',
     [],
     lit ''| Parameter | Type | Description | Constraints |'',
     lit ''|-----------|------|-------------|-------------|'',
     lit ''| x | array | Input signal | Length > 0 |'',
     [],
     lit ''## Outputs'',
     [],
     lit ''| Output | Type | Description |'',
     lit ''|--------|------|-------------|'',
     lit ''| result | float | Computed value |'',
     [],
     lit ''## Algorithm Steps'',
     [],
     lit ''1. [Step 1]'',
     lit ''2. [Step 2]'',
     lit ''3. [Step 3]'',
     [],
     lit ''## Edge Cases'',
     [],
     lit ''- [What happens with empty input?]'',
     lit ''- [What happens with NaN values?]'',
     lit ''- [Numerical stability concerns?]'',
     [],
     lit ''## Validation Approach'',
     [],
     lit ''[How will you verify the implementation is correct?]'',
     [],
     lit ''## Change Record'',
     [],
     lit ''- YYYY-MM-DD: Initial draft'']\<close>

definition VALIDATION_SPEC_TEMPLATE :: "str" where
  \<open>VALIDATION_SPEC_TEMPLATE = unlines
    [lit ''# Validation Plan'',
     [],
     lit ''**Status**: Draft'',
     [],
     lit ''<!--'',
     lit ''This spec describes how you'll validate that your implementation is correct.'',
     lit ''Especially important for scientific code where correctness matters.'',
     [],
     lit ''Delete these instructions once you've documented your validation plan.'',
     lit ''-->'',
     [],
     lit ''## Overview'',
     [],
     lit ''[What are you validating? What does "correct" mean for this project?]'',
     [],
     lit ''## Test Cases'',
     [],
     lit ''### Unit Tests'',
     [],
     lit ''[Tests for individual functions/components]'',
     [],
     lit ''### Integration Tests'',
     [],
     lit ''[Tests for components working together]'',
     [],
     lit ''### Known-Answer Tests'',
     [],
     lit ''[Tests against published results or analytical solutions]'',
     [],
     lit ''| Test Case | Input | Expected Output | Source |'',
     lit ''|-----------|-------|-----------------|--------|'',
     lit ''| [Name] | [Input description] | [Expected result] | [Paper/reference] |'',
     [],
     lit ''## Validation Data'',
     [],
     lit ''[What test datasets exist? Where do they come from?]'',
     [],
     lit ''## Acceptance Criteria'',
     [],
     lit ''[What must pass before the implementation is considered valid?]'',
     [],
     lit ''## Change Record'',
     [],
     lit ''- YYYY-MM-DD: Initial draft'']\<close>

definition readme_template :: "str \<Rightarrow> str \<Rightarrow> str" where
  \<open>readme_template name description = unlines
    [lit ''# '' @ name,
     [],
     description,
     [],
     lit ''## Overview'',
     [],
     lit ''See [specs/00-overview.md](specs/00-overview.md) for project goals and scope.'',
     [],
     lit ''## Project Structure'',
     [],
     lit ''```'',
     name @ lit ''/'',
     [0x251C, 0x2500, 0x2500] @ lit '' specs/           # Specifications (start here!)'',
     [0x2502] @ lit ''   '' @ [0x251C, 0x2500, 0x2500] @ lit '' spec-format.md      # How to write specs'',
     [0x2502] @ lit ''   '' @ [0x251C, 0x2500, 0x2500] @ lit '' 00-overview.md      # Project overview'',
     [0x2502] @ lit ''   '' @ [0x251C, 0x2500, 0x2500] @ lit '' 01-requirements/    # What the system should do'',
     [0x2502] @ lit ''   '' @ [0x251C, 0x2500, 0x2500] @ lit '' 02-architecture/    # How components fit together'',
     [0x2502] @ lit ''   '' @ [0x251C, 0x2500, 0x2500] @ lit '' 03-implementation/  # Implementation details'',
     [0x2502] @ lit ''   '' @ [0x2514, 0x2500, 0x2500] @ lit '' 99-decisions/       # Architecture decision records'',
     [0x251C, 0x2500, 0x2500] @ lit '' src/             # Source code'',
     [0x2514, 0x2500, 0x2500] @ lit '' tests/           # Test code'',
     lit ''```'',
     [],
     lit ''## Getting Started'',
     [],
     lit ''1. Read `specs/00-overview.md` to understand the project'',
     lit ''2. Review `specs/spec-format.md` for how to write specs'',
     lit ''3. Start with requirements in `specs/01-requirements/`'',
     [],
     lit ''## Development Approach'',
     [],
     lit ''This project uses **spec-driven development**:'',
     [],
     lit ''1. Write specifications before code'',
     lit ''2. Use AI assistants to help refine specs and implement them'',
     lit ''3. Verify implementations against specs'',
     lit ''4. Update specs as requirements evolve'',
     [],
     lit ''See [spec-driven.science](https://spec-driven.science) for more on this approach.'']\<close>

definition contributing_template :: "str \<Rightarrow> str" where
  \<open>contributing_template name = unlines
    [lit ''# Contributing to '' @ name,
     [],
     lit ''## Development Approach'',
     [],
     lit ''This project uses spec-driven development. Before writing code:'',
     [],
     lit ''1. **Check for an existing spec** in the `specs/` directory'',
     lit ''2. **Write or update a spec** if one doesn't exist'',
     lit ''3. **Get the spec reviewed** before implementing'',
     lit ''4. **Reference the spec** in your code and commits'',
     [],
     lit ''## Commit Messages'',
     [],
     lit ''Use clear, descriptive commit messages:'',
     [],
     lit ''```'',
     lit ''Add amplitude calculation per spec 03-implementation/amplitude.md'',
     [],
     lit ''Implements the RMS amplitude algorithm as specified. Includes'',
     lit ''edge case handling for empty windows.'',
     lit ''```'',
     [],
     lit ''## Code Style'',
     [],
     lit ''- Follow existing patterns in the codebase'',
     lit ''- Include docstrings for public functions'',
     lit ''- Write tests for new functionality'',
     [],
     lit ''## Pull Request Process'',
     [],
     lit ''1. Ensure your changes align with a spec'',
     lit ''2. Update specs if your changes affect requirements'',
     lit ''3. Include tests for new functionality'',
     lit ''4. Reference relevant specs in your PR description'',
     [],
     lit ''## Questions?'',
     [],
     lit ''Open an issue for discussion before starting significant work.'']\<close>

definition claude_md_template :: "str \<Rightarrow> str" where
  \<open>claude_md_template name = unlines
    [lit ''# Project: '' @ name,
     [],
     lit ''## Overview'',
     [],
     lit ''This is a spec-driven scientific project. Specifications live in the `specs/` directory and should be referenced before implementing any functionality.'',
     [],
     lit ''## Key Principles'',
     [],
     lit ''- **Specs first**: Check `specs/` before writing code. If no spec exists, write one.'',
     lit ''- **Small steps**: Implement incrementally. One function, one test, verify, repeat.'',
     lit ''- **Ask questions**: If a spec is unclear, ask for clarification rather than guessing.'',
     [],
     lit ''## Project Structure'',
     [],
     lit ''- `specs/` '' @ [0x2014] @ lit '' Specifications (requirements, architecture, algorithms)'',
     lit ''- `src/` '' @ [0x2014] @ lit '' Source code'',
     lit ''- `tests/` '' @ [0x2014] @ lit '' Test code'',
     [],
     lit ''## Working With Me'',
     [],
     lit ''- Reference specific specs when discussing implementation'',
     lit ''- Propose spec updates if you notice gaps or issues'',
     lit ''- Keep implementations focused'' @ [0x2014] @ lit ''one concept at a time'',
     lit ''- I'll verify your suggestions against the specs'',
     [],
     lit ''## Spec Format'',
     [],
     lit ''See `specs/spec-format.md` for how specifications are written in this project.'']\<close>

definition cursorrules_template :: "str \<Rightarrow> str" where
  \<open>cursorrules_template name = unlines
    [lit ''# Project: '' @ name,
     [],
     lit ''This is a spec-driven scientific project.'',
     [],
     lit ''## Key Rules'',
     [],
     lit ''1. Check `specs/` directory before implementing anything'',
     lit ''2. Reference specific specs when discussing code'',
     lit ''3. If no spec exists for a feature, write one first'',
     lit ''4. Keep changes small and incremental'',
     lit ''5. Verify implementations against spec requirements'',
     [],
     lit ''## Project Structure'',
     [],
     lit ''- `specs/` '' @ [0x2014] @ lit '' Specifications (start here!)'',
     lit ''- `src/` '' @ [0x2014] @ lit '' Source code'',
     lit ''- `tests/` '' @ [0x2014] @ lit '' Test code'',
     [],
     lit ''## Spec Format'',
     [],
     lit ''See `specs/spec-format.md` for specification conventions.'']\<close>

definition copilot_instructions_template :: "str \<Rightarrow> str" where
  \<open>copilot_instructions_template name = unlines
    [lit ''# Project: '' @ name,
     [],
     lit ''This is a spec-driven scientific project. Specifications in `specs/` define what should be built.'',
     [],
     lit ''## Guidelines'',
     [],
     lit ''- Check `specs/` before implementing features'',
     lit ''- Reference specs when writing code'',
     lit ''- Write specs for new functionality before implementing'',
     lit ''- Keep implementations focused and incremental'',
     lit ''- Follow patterns established in existing code'',
     [],
     lit ''## Structure'',
     [],
     lit ''- `specs/` '' @ [0x2014] @ lit '' Specifications (requirements, architecture, decisions)'',
     lit ''- `src/` '' @ [0x2014] @ lit '' Source code'',
     lit ''- `tests/` '' @ [0x2014] @ lit '' Test code'']\<close>

section \<open>Paths\<close>

text \<open>
  A path is the list of its parts, as \<^verbatim>\<open>pathlib\<close> keeps it on a POSIX system: the root
  (\<^verbatim>\<open>/\<close> or \<^verbatim>\<open>//\<close>) comes first when the path is absolute, and empty and \<^verbatim>\<open>.\<close> components
  are dropped. The empty list of parts is the current directory.
\<close>

type_synonym path = "str list"

definition Path :: "str \<Rightarrow> path" where
  "Path s =
     (let anchor = (if take 1 s \<noteq> [0x2F] then []
                    else if take 1 (drop 1 s) \<noteq> [0x2F] \<or> take 1 (drop 2 s) = [0x2F]
                    then [[0x2F]]
                    else [[0x2F, 0x2F]])
      in anchor @ filter (\<lambda>x. x \<noteq> [] \<and> x \<noteq> lit ''.'') (split_on 0x2F s))"

definition anchored :: "path \<Rightarrow> bool" where
  "anchored p = (p \<noteq> [] \<and> (hd p = [0x2F] \<or> hd p = [0x2F, 0x2F]))"

text \<open>The operator \<^verbatim>\<open>/\<close> of a path and a string, and the property \<^verbatim>\<open>parent\<close>.\<close>

definition joinpath :: "path \<Rightarrow> str \<Rightarrow> path" where
  "joinpath p s = (let q = Path s in if anchored q then q else p @ q)"

definition parent :: "path \<Rightarrow> path" where
  "parent p = (if anchored p \<and> length p = 1 then p else butlast p)"

section \<open>The world: terminal, file system and clock\<close>

text \<open>
  The program reads lines from standard input, prints to standard output, reads the clock
  and changes the file system. The world holds the lines still to be read, the text printed
  so far, the directories and the regular files (with their text) by path, the
  file-system calls that took effect so far (each an event), and the date the clock shows.
  An entry is identified by the parts of its path: the model has no symbolic links and
  gives \<^verbatim>\<open>..\<close> no meaning of its own. Text is written as it is (no encoding error, no
  newline translation).
\<close>

datatype event =
    Mkdir path
  | Write path str
  | Create path
  | Utime path

record world =
  stdin :: "str list"
  stdout :: str
  fs_dirs :: "path set"
  fs_files :: "path \<rightharpoonup> str"
  fs_trace :: "event list"
  clock :: date

text \<open>
  What a call that takes effect does to the world: a directory is made, a file is created
  or truncated and written, an empty file is created, or the times of an entry are
  updated. Each adds itself to the trace.
\<close>

fun apply_event :: "event \<Rightarrow> world \<Rightarrow> world" where
  "apply_event (Mkdir p) w =
     w\<lparr>fs_dirs := insert p (fs_dirs w), fs_trace := fs_trace w @ [Mkdir p]\<rparr>"
| "apply_event (Write p data) w =
     w\<lparr>fs_files := (fs_files w)(p \<mapsto> data), fs_trace := fs_trace w @ [Write p data]\<rparr>"
| "apply_event (Create p) w =
     w\<lparr>fs_files := (fs_files w)(p \<mapsto> []), fs_trace := fs_trace w @ [Create p]\<rparr>"
| "apply_event (Utime p) w = w\<lparr>fs_trace := fs_trace w @ [Utime p]\<rparr>"

text \<open>
  An exception is a value: an action of the program maps the world to an exception or a
  result, and to the world it leaves behind.
\<close>

datatype exn =
    SystemExit int
  | EOFError
  | FileExistsError
  | FileNotFoundError
  | NotADirectoryError
  | IsADirectoryError

type_synonym 'a io = "world \<Rightarrow> (exn + 'a) \<times> world"

definition io_return :: "'a \<Rightarrow> 'a io" where
  "io_return x w = (Inr x, w)"

definition io_raise :: "exn \<Rightarrow> 'a io" where
  "io_raise e w = (Inl e, w)"

definition io_bind :: "'a io \<Rightarrow> ('a \<Rightarrow> 'b io) \<Rightarrow> 'b io" where
  "io_bind m f w = (case m w of (Inl e, w') \<Rightarrow> (Inl e, w') | (Inr x, w') \<Rightarrow> f x w')"

definition io_seq :: "unit io \<Rightarrow> 'b io \<Rightarrow> 'b io" where
  "io_seq m k = io_bind m (\<lambda>_. k)"

lemma io_bind_cong [fundef_cong]:
  assumes "m w = m' w'"
    and "\<And>x v. m' w' = (Inr x, v) \<Longrightarrow> f x v = f' x v"
  shows "io_bind m f w = io_bind m' f' w'"
  using assms by (auto simp: io_bind_def split: prod.splits sum.splits)

lemma io_seq_cong [fundef_cong]:
  assumes "m w = m' w'"
    and "\<And>v. m' w' = (Inr (), v) \<Longrightarrow> k v = k' v"
  shows "io_seq m k w = io_seq m' k' w'"
  using assms by (auto simp: io_seq_def io_bind_def split: prod.splits sum.splits)

text \<open>A block of statements, run in order up to the first exception.\<close>

fun block :: "unit io list \<Rightarrow> unit io" where
  "block [] = io_return ()"
| "block (m # ms) = io_seq m (block ms)"

definition io_when :: "bool \<Rightarrow> unit io \<Rightarrow> unit io" where
  "io_when b m = (if b then m else io_return ())"

subsection \<open>Terminal\<close>

text \<open>
  \<^verbatim>\<open>print(s)\<close> writes \<open>s\<close> and a newline. \<^verbatim>\<open>input(p)\<close> writes the prompt and returns the next line
  without its newline; at the end of the input it raises \<^verbatim>\<open>EOFError\<close>.
\<close>

definition print :: "str \<Rightarrow> unit io" where
  "print s w = (Inr (), w\<lparr>stdout := stdout w @ s @ [0xA]\<rparr>)"

definition input :: "str \<Rightarrow> str io" where
  "input p w =
     (case stdin w of
        [] \<Rightarrow> (Inl EOFError, w\<lparr>stdout := stdout w @ p\<rparr>)
      | l # ls \<Rightarrow> (Inr l, w\<lparr>stdin := ls, stdout := stdout w @ p\<rparr>))"

subsection \<open>File system\<close>

text \<open>The current directory and the root always exist.\<close>

definition is_dir :: "world \<Rightarrow> path \<Rightarrow> bool" where
  "is_dir w p = (p = [] \<or> (anchored p \<and> length p = 1) \<or> p \<in> fs_dirs w)"

definition is_file :: "world \<Rightarrow> path \<Rightarrow> bool" where
  "is_file w p = (p \<in> dom (fs_files w))"

definition path_exists :: "world \<Rightarrow> path \<Rightarrow> bool" where
  "path_exists w p = (is_dir w p \<or> is_file w p)"

definition exists :: "path \<Rightarrow> bool io" where
  "exists p w = (Inr (path_exists w p), w)"

text \<open>
  The error of a call whose parent directory is not there: \<^verbatim>\<open>ENOTDIR\<close> when a regular file
  stands on the way, \<^verbatim>\<open>ENOENT\<close> otherwise.
\<close>

definition no_parent :: "world \<Rightarrow> path \<Rightarrow> exn" where
  "no_parent w p =
     (if list_ex (is_file w) (prefixes (parent p)) then NotADirectoryError
      else FileNotFoundError)"

text \<open>\<^verbatim>\<open>os.mkdir\<close>, the system call.\<close>

definition os_mkdir :: "path \<Rightarrow> unit io" where
  "os_mkdir p w =
     (if path_exists w p then (Inl FileExistsError, w)
      else if \<not> is_dir w (parent p) then (Inl (no_parent w p), w)
      else (Inr (), apply_event (Mkdir p) w))"

text \<open>
  \<^verbatim>\<open>Path.mkdir(parents, exist_ok)\<close> as \<^verbatim>\<open>pathlib\<close> defines it: it tries \<^verbatim>\<open>os.mkdir\<close>; on
  \<^verbatim>\<open>FileNotFoundError\<close> with \<^verbatim>\<open>parents\<close> it makes the parent (with its parents) and
  tries once more; any other \<^verbatim>\<open>OSError\<close> is dropped when \<^verbatim>\<open>exist_ok\<close> holds and the path is
  a directory.
\<close>

function mkdir :: "path \<Rightarrow> bool \<Rightarrow> bool \<Rightarrow> unit io" where
  "mkdir p parents exist_ok w =
     (case os_mkdir p w of
        (Inr u, w') \<Rightarrow> (Inr (), w')
      | (Inl FileNotFoundError, w') \<Rightarrow>
          if \<not> parents \<or> parent p = p then (Inl FileNotFoundError, w')
          else (case mkdir (parent p) True True w' of
                  (Inl e, w'') \<Rightarrow> (Inl e, w'')
                | (Inr u, w'') \<Rightarrow> mkdir p False exist_ok w'')
      | (Inl e, w') \<Rightarrow>
          if \<not> exist_ok \<or> \<not> is_dir w' p then (Inl e, w') else (Inr (), w'))"
  by pat_completeness auto
termination
proof (relation "measures [\<lambda>(p, parents, exist_ok, w). length p,
                           \<lambda>(p, parents, exist_ok, w). if parents then 1 else 0]")
  show "wf (measures [\<lambda>(p, parents, exist_ok, w). length p,
                      \<lambda>(p, parents, exist_ok, w). if parents then 1 else (0::nat)])"
    by simp
next
  fix p :: path and parents exist_ok :: bool and w :: world and x y xa
  assume "\<not> (\<not> parents \<or> parent p = p)"
  then have "parent p = butlast p" "p \<noteq> []"
    by (auto simp: parent_def split: if_splits)
  then show "((parent p, True, True, y), p, parents, exist_ok, w)
          \<in> measures [\<lambda>(p, parents, exist_ok, w). length p,
                       \<lambda>(p, parents, exist_ok, w). if parents then 1 else 0]"
    by simp
next
  fix p :: path and parents exist_ok :: bool and w :: world and x y xa xb ya xc
  assume "\<not> (\<not> parents \<or> parent p = p)"
  then show "((p, False, exist_ok, ya), p, parents, exist_ok, w)
          \<in> measures [\<lambda>(p, parents, exist_ok, w). length p,
                       \<lambda>(p, parents, exist_ok, w). if parents then 1 else 0]"
    by simp
qed

declare mkdir.simps [simp del]

text \<open>
  \<^verbatim>\<open>Path.write_text(data)\<close> opens the file for writing, which creates or truncates it, and
  writes the text. \<^verbatim>\<open>Path.touch()\<close> updates the times of an entry that is there and
  creates an empty file otherwise.
\<close>

definition write_text :: "path \<Rightarrow> str \<Rightarrow> unit io" where
  "write_text p data w =
     (if is_dir w p then (Inl IsADirectoryError, w)
      else if \<not> is_dir w (parent p) then (Inl (no_parent w p), w)
      else (Inr (), apply_event (Write p data) w))"

definition touch :: "path \<Rightarrow> unit io" where
  "touch p w =
     (if path_exists w p then (Inr (), apply_event (Utime p) w)
      else if \<not> is_dir w (parent p) then (Inl (no_parent w p), w)
      else (Inr (), apply_event (Create p) w))"

section \<open>The scaffolder\<close>

subsection \<open>Prompts\<close>

definition prompt :: "str \<Rightarrow> str \<Rightarrow> str io" where
  "prompt question dflt =
     (if dflt \<noteq> [] then
        io_bind (input (question @ lit '' ['' @ dflt @ lit '']: '')) (\<lambda>line.
          let response = strip line
          in io_return (if response \<noteq> [] then response else dflt))
      else
        io_bind (input (question @ lit '': '')) (\<lambda>line. io_return (strip line)))"

text \<open>
  The body of \<^verbatim>\<open>prompt_choice\<close>'s \<^verbatim>\<open>while True\<close>: a response that is an integer between 1 and
  the number of options returns that option; a \<^verbatim>\<open>ValueError\<close> and a number out of range
  both fall through to the guidance message and the next round.
\<close>

function prompt_choice_loop :: "str list \<Rightarrow> str io" where
  "prompt_choice_loop options w =
     io_bind (input (lit ''Enter number: '')) (\<lambda>line v.
       case (case py_int (strip line) of
               None \<Rightarrow> None
             | Some choice \<Rightarrow>
                 if 1 \<le> choice \<and> choice \<le> int (length options)
                 then Some (options ! nat (choice - 1)) else None) of
         Some option \<Rightarrow> io_return option v
       | None \<Rightarrow>
           io_seq (print (lit ''Please enter a number between 1 and ''
                          @ str_of_nat (length options)))
                  (prompt_choice_loop options) v) w"
  by pat_completeness auto
termination
  by (relation "measure (\<lambda>(options, w). length (stdin w))")
     (auto simp: input_def print_def split: list.splits)

declare prompt_choice_loop.simps [simp del]

definition prompt_choice :: "str \<Rightarrow> str list \<Rightarrow> str io" where
  "prompt_choice question options =
     io_seq (print ([0xA] @ question))
    (io_seq (block (map (\<lambda>(i, option). print (lit ''  '' @ str_of_nat i @ lit ''. '' @ option))
                        (zip [1 ..< length options + 1] options)))
            (prompt_choice_loop options))"

subsection \<open>Gathering the inputs\<close>

record inputs =
  name :: str
  description :: str
  project_type :: str
  ai_tool :: str

text \<open>The loop of \<^verbatim>\<open>gather_inputs\<close> that asks again while the name is empty.\<close>

function name_loop :: "str \<Rightarrow> str io" where
  "name_loop n w =
     (if n = [] then
        io_seq (print (lit ''Project name is required.''))
               (io_bind (prompt (lit ''Project name'') []) name_loop) w
      else io_return n w)"
  by pat_completeness auto
termination
  by (relation "measure (\<lambda>(n, w). length (stdin w))")
     (auto simp: prompt_def input_def print_def io_bind_def io_return_def split: list.splits)

declare name_loop.simps [simp del]

definition gather_inputs :: "inputs io" where
  "gather_inputs =
     io_seq (print ([0xA] @ lit ''=== Spec-Driven Project Scaffolder ==='' @ [0xA]))
    (io_bind (io_bind (prompt (lit ''Project name (e.g., seismic-analysis)'') []) name_loop)
       (\<lambda>name.
     io_bind (prompt (lit ''One-line description'') (lit ''A spec-driven scientific project''))
       (\<lambda>description.
     io_bind (prompt_choice (lit ''Project type:'')
                [lit ''Data pipeline'', lit ''Analysis tool'', lit ''Algorithm implementation'',
                 lit ''General''])
       (\<lambda>project_type.
     io_bind (prompt_choice (lit ''Primary AI coding assistant:'')
                [lit ''Claude Code'', lit ''Cursor'', lit ''GitHub Copilot'', lit ''Other/None''])
       (\<lambda>ai_tool.
     io_return \<lparr>name = name, description = description, project_type = project_type,
                ai_tool = ai_tool\<rparr>)))))"

subsection \<open>Scaffolding logic\<close>

definition create_project :: "inputs \<Rightarrow> path io" where
  "create_project inputs =
     (let name = name inputs;
          description = description inputs;
          project_type = project_type inputs;
          ai_tool = ai_tool inputs;
          root = Path name
      in io_bind (exists root) (\<lambda>found.
         if found then
           io_seq (print ([0xA] @ lit ''Error: Directory '' @ [0x27] @ name @ [0x27]
                          @ lit '' already exists.''))
                  (io_raise (SystemExit 1))
         else
           (let dirs =
                  [joinpath (joinpath root (lit ''specs'')) (lit ''01-requirements''),
                   joinpath (joinpath root (lit ''specs'')) (lit ''02-architecture''),
                   joinpath (joinpath root (lit ''specs'')) (lit ''03-implementation''),
                   joinpath (joinpath root (lit ''specs'')) (lit ''99-decisions''),
                   joinpath root (lit ''src''),
                   joinpath root (lit ''tests'')]
                  @ (if project_type = lit ''Algorithm implementation''
                     then [joinpath (joinpath root (lit ''specs'')) (lit ''04-algorithms''),
                           joinpath (joinpath root (lit ''specs'')) (lit ''05-validation'')]
                     else [])
            in io_seq (block
                 [block (map (\<lambda>d. mkdir d True True) dirs),
                  write_text (joinpath (joinpath root (lit ''specs'')) (lit ''spec-format.md''))
                    SPEC_FORMAT,
                  (\<lambda>w. write_text (joinpath (joinpath root (lit ''specs'')) (lit ''00-overview.md''))
                          (overview_template name description (clock w)) w),
                  write_text (joinpath (joinpath (joinpath root (lit ''specs''))
                                (lit ''01-requirements'')) (lit ''functional.md''))
                    FUNCTIONAL_REQUIREMENTS,
                  write_text (joinpath (joinpath (joinpath root (lit ''specs''))
                                (lit ''99-decisions'')) (lit ''adr-000-template.md''))
                    ADR_TEMPLATE,
                  io_when (project_type = lit ''Data pipeline'')
                    (write_text (joinpath (joinpath (joinpath root (lit ''specs''))
                                   (lit ''02-architecture'')) (lit ''data-flow.md''))
                       DATA_FLOW_TEMPLATE),
                  io_when (project_type = lit ''Algorithm implementation'')
                    (block
                       [write_text (joinpath (joinpath (joinpath root (lit ''specs''))
                                      (lit ''04-algorithms'')) (lit ''algorithm-template.md''))
                          ALGORITHM_SPEC_TEMPLATE,
                        write_text (joinpath (joinpath (joinpath root (lit ''specs''))
                                      (lit ''05-validation'')) (lit ''validation-plan.md''))
                          VALIDATION_SPEC_TEMPLATE]),
                  write_text (joinpath root (lit ''README.md''))
                    (readme_template name description),
                  write_text (joinpath root (lit ''CONTRIBUTING.md''))
                    (contributing_template name),
                  (if ai_tool = lit ''Claude Code'' then
                     block
                       [mkdir (joinpath root (lit ''.claude'')) False True,
                        write_text (joinpath (joinpath root (lit ''.claude'')) (lit ''CLAUDE.md''))
                          (claude_md_template name)]
                   else if ai_tool = lit ''Cursor'' then
                     write_text (joinpath root (lit ''.cursorrules''))
                       (cursorrules_template name)
                   else if ai_tool = lit ''GitHub Copilot'' then
                     block
                       [mkdir (joinpath root (lit ''.github'')) False True,
                        write_text (joinpath (joinpath root (lit ''.github''))
                                      (lit ''copilot-instructions.md''))
                          (copilot_instructions_template name)]
                   else io_return ()),
                  block (map (\<lambda>d. touch (joinpath d (lit ''.gitkeep'')))
                             [joinpath root (lit ''src''), joinpath root (lit ''tests'')])])
                 (io_return root))))"

section \<open>Runs, read from the trace\<close>

text \<open>
  The world after a list of events; the directories a list of events makes and the files it
  writes (written or created); the prefixes of a path that are not there, from the
  outermost on; and the worlds a file system can be in: the parent of every entry is a
  directory, and no regular file is a directory.
\<close>

definition replay :: "event list \<Rightarrow> world \<Rightarrow> world" where
  "replay evs w = fold apply_event evs w"

definition made :: "event list \<Rightarrow> path list" where
  "made evs = concat (map (\<lambda>e. case e of Mkdir p \<Rightarrow> [p] | _ \<Rightarrow> []) evs)"

definition written :: "event list \<Rightarrow> path list" where
  "written evs =
     concat (map (\<lambda>e. case e of Write p data \<Rightarrow> [p] | Create p \<Rightarrow> [p] | _ \<Rightarrow> []) evs)"

definition new_events :: "world \<Rightarrow> world \<Rightarrow> event list" where
  "new_events w w' = drop (length (fs_trace w)) (fs_trace w')"

definition missing :: "world \<Rightarrow> path \<Rightarrow> path list" where
  "missing w p = filter (\<lambda>q. \<not> path_exists w q) (prefixes p)"

definition wf_world :: "world \<Rightarrow> bool" where
  "wf_world w = ((\<forall>p \<in> fs_dirs w \<union> dom (fs_files w). is_dir w (parent p))
                 \<and> (\<forall>p \<in> dom (fs_files w). \<not> is_dir w p))"

text \<open>
  The events of a run of \<open>create_project\<close> that finds no entry at the root, after the root
  itself has been made: the directories, the core files, the files of the project type, the
  root files, the configuration of the AI tool and the two markers.
\<close>

definition project_events :: "inputs \<Rightarrow> date \<Rightarrow> path \<Rightarrow> event list" where
  "project_events i clk root =
     map Mkdir
       ([root @ [lit ''specs''],
         root @ [lit ''specs'', lit ''01-requirements''],
         root @ [lit ''specs'', lit ''02-architecture''],
         root @ [lit ''specs'', lit ''03-implementation''],
         root @ [lit ''specs'', lit ''99-decisions''],
         root @ [lit ''src''],
         root @ [lit ''tests'']]
        @ (if project_type i = lit ''Algorithm implementation''
           then [root @ [lit ''specs'', lit ''04-algorithms''],
                 root @ [lit ''specs'', lit ''05-validation'']]
           else []))
     @ [Write (root @ [lit ''specs'', lit ''spec-format.md'']) SPEC_FORMAT,
        Write (root @ [lit ''specs'', lit ''00-overview.md''])
          (overview_template (name i) (description i) clk),
        Write (root @ [lit ''specs'', lit ''01-requirements'', lit ''functional.md''])
          FUNCTIONAL_REQUIREMENTS,
        Write (root @ [lit ''specs'', lit ''99-decisions'', lit ''adr-000-template.md''])
          ADR_TEMPLATE]
     @ (if project_type i = lit ''Data pipeline''
        then [Write (root @ [lit ''specs'', lit ''02-architecture'', lit ''data-flow.md''])
                DATA_FLOW_TEMPLATE]
        else [])
     @ (if project_type i = lit ''Algorithm implementation''
        then [Write (root @ [lit ''specs'', lit ''04-algorithms'', lit ''algorithm-template.md''])
                ALGORITHM_SPEC_TEMPLATE,
              Write (root @ [lit ''specs'', lit ''05-validation'', lit ''validation-plan.md''])
                VALIDATION_SPEC_TEMPLATE]
        else [])
     @ [Write (root @ [lit ''README.md'']) (readme_template (name i) (description i)),
        Write (root @ [lit ''CONTRIBUTING.md'']) (contributing_template (name i))]
     @ (if ai_tool i = lit ''Claude Code''
        then [Mkdir (root @ [lit ''.claude'']),
              Write (root @ [lit ''.claude'', lit ''CLAUDE.md'']) (claude_md_template (name i))]
        else if ai_tool i = lit ''Cursor''
        then [Write (root @ [lit ''.cursorrules'']) (cursorrules_template (name i))]
        else if ai_tool i = lit ''GitHub Copilot''
        then [Mkdir (root @ [lit ''.github'']),
              Write (root @ [lit ''.github'', lit ''copilot-instructions.md''])
                (copilot_instructions_template (name i))]
        else [])
     @ [Create (root @ [lit ''src'', lit ''.gitkeep'']),
        Create (root @ [lit ''tests'', lit ''.gitkeep''])]"

text \<open>No regular file stands where the path needs a directory, or the entry itself.\<close>

definition unobstructed :: "world \<Rightarrow> path \<Rightarrow> bool" where
  "unobstructed w p = (\<not> list_ex (is_file w) (prefixes p))"

text \<open>
  A world with an empty current directory and nothing typed, and the inputs of the
  end-to-end scenario.
\<close>

definition empty_world :: world where
  "empty_world = \<lparr>stdin = [], stdout = [], fs_dirs = {}, fs_files = Map.empty, fs_trace = [],
                   clock = \<lparr>year = 2024, month = 5, day = 17\<rparr>\<rparr>"

definition seismic :: inputs where
  "seismic = \<lparr>name = lit ''seismic-analysis'', description = lit ''Detect quakes'',
               project_type = lit ''Algorithm implementation'', ai_tool = lit ''Claude Code''\<rparr>"

text \<open>
  The file set as the specification words it, relative to the project root: the base set,
  the additions of the project type, and the file of the AI tool.
\<close>

definition base_files :: "path set" where
  "base_files =
     {[lit ''specs'', lit ''spec-format.md''],
      [lit ''specs'', lit ''00-overview.md''],
      [lit ''specs'', lit ''01-requirements'', lit ''functional.md''],
      [lit ''specs'', lit ''99-decisions'', lit ''adr-000-template.md''],
      [lit ''README.md''],
      [lit ''CONTRIBUTING.md''],
      [lit ''src'', lit ''.gitkeep''],
      [lit ''tests'', lit ''.gitkeep'']}"

definition expected_files :: "str \<Rightarrow> str \<Rightarrow> path set" where
  "expected_files pt tool =
     base_files
     \<union> (if pt = lit ''Data pipeline''
        then {[lit ''specs'', lit ''02-architecture'', lit ''data-flow.md'']} else {})
     \<union> (if pt = lit ''Algorithm implementation''
        then {[lit ''specs'', lit ''04-algorithms'', lit ''algorithm-template.md''],
              [lit ''specs'', lit ''05-validation'', lit ''validation-plan.md'']} else {})
     \<union> (if tool = lit ''Claude Code'' then {[lit ''.claude'', lit ''CLAUDE.md'']}
        else if tool = lit ''Cursor'' then {[lit ''.cursorrules'']}
        else if tool = lit ''GitHub Copilot''
        then {[lit ''.github'', lit ''copilot-instructions.md'']}
        else {})"

text \<open>Inputs whose name has two components.\<close>

definition nested :: inputs where
  "nested = \<lparr>name = lit ''a/b'', description = lit ''Nested'',
              project_type = lit ''General'', ai_tool = lit ''Other/None''\<rparr>"

text \<open>
  What \<open>prompt_choice\<close> prints: the menu, and the guidance after a response it does not
  accept. A response is accepted for \<open>n\<close> options when it is an integer from 1 to \<open>n\<close>.
\<close>

definition accepts :: "nat \<Rightarrow> str \<Rightarrow> bool" where
  "accepts n line =
     (case py_int (strip line) of None \<Rightarrow> False | Some choice \<Rightarrow> 1 \<le> choice \<and> choice \<le> int n)"

definition menu :: "str \<Rightarrow> str list \<Rightarrow> str" where
  "menu question options =
     [0xA] @ question @ [0xA]
     @ concat (map (\<lambda>(i, option). lit ''  '' @ str_of_nat i @ lit ''. '' @ option @ [0xA])
                   (zip [1 ..< length options + 1] options))"

definition guidance :: "str list \<Rightarrow> str" where
  "guidance options =
     lit ''Please enter a number between 1 and '' @ str_of_nat (length options) @ [0xA]"

text \<open>
  Whether a text holds another (Python's \<^verbatim>\<open>in\<close>), and what the specification asks of a
  rendered file: a "## Change Record" section, and a line "**Status**: <value>".
\<close>

fun starts_with :: "str \<Rightarrow> str \<Rightarrow> bool" where
  "starts_with [] ys = True"
| "starts_with (x # xs) [] = False"
| "starts_with (x # xs) (y # ys) = (x = y \<and> starts_with xs ys)"

fun contains :: "str \<Rightarrow> str \<Rightarrow> bool" where
  "contains xs [] = (xs = [])"
| "contains xs (y # ys) = (starts_with xs (y # ys) \<or> contains xs ys)"

definition has_change_record :: "str \<Rightarrow> bool" where
  "has_change_record s = contains (lit ''## Change Record'') s"

definition has_status_line :: "str \<Rightarrow> bool" where
  "has_status_line s =
     list_ex (\<lambda>l. starts_with (lit ''**Status**: '') l \<and> l \<noteq> lit ''**Status**: '')
             (split_on 0xA s)"

section \<open>Properties of the templates\<close>

lemma unlines_Nil: "unlines [] = []"
  by (simp add: unlines_def)

lemma unlines_Cons: "unlines (l # ls) = l @ 0xA # unlines ls"
  by (simp add: unlines_def)

lemma unlines_append: "unlines (xs @ ys) = unlines xs @ unlines ys"
  by (simp add: unlines_def)

lemma sublist_unlines:
  assumes "l \<in> set ls" and "sublist x l"
  shows "sublist x (unlines ls)"
proof -
  from assms(1) obtain xs ys where "ls = xs @ l # ys"
    by (auto simp: in_set_conv_decomp)
  then have "unlines ls = unlines xs @ l @ (0xA # unlines ys)"
    by (simp add: unlines_append unlines_Cons)
  then have "sublist l (unlines ls)"
    unfolding sublist_def by blast
  with assms(2) show ?thesis
    by (rule sublist_order.order_trans)
qed

subsection \<open>Literals and paths\<close>

lemma lit_Nil [simp]: "lit [] = []"
  by (simp add: lit_def)

lemma lit_eq_iff [simp]: "lit a = lit b \<longleftrightarrow> a = b"
proof -
  have "inj (of_char :: char \<Rightarrow> nat)"
    by (rule injI) simp
  then show ?thesis
    by (simp add: lit_def inj_map_eq_map)
qed

lemma lit_eq_Nil_iff [simp]: "lit a = [] \<longleftrightarrow> a = []"
  by (simp add: lit_def)

lemma split_on_no_sep: "sep \<notin> set s \<Longrightarrow> split_on sep s = [s]"
  by (induction s) auto

lemma of_char_slash: "of_char c = (0x2F::nat) \<longleftrightarrow> c = CHR ''/''"
proof -
  have "of_char c = (of_char CHR ''/'' :: nat) \<longleftrightarrow> c = CHR ''/''"
    by (rule of_char_eq_iff)
  moreover have "(of_char CHR ''/'' :: nat) = 0x2F"
    by simp
  ultimately show ?thesis
    by (simp only:)
qed

lemma slash_in_lit: "0x2F \<in> set (lit s) \<longleftrightarrow> CHR ''/'' \<in> set s"
  unfolding lit_def set_map image_iff of_char_slash [symmetric]
  by (metis of_char_slash)

lemma Path_component:
  assumes "0x2F \<notin> set s" and "s \<noteq> []" and "s \<noteq> lit ''.''"
  shows "Path s = [s]"
proof -
  from assms(1,2) have "take 1 s \<noteq> [0x2F]"
    by (cases s) auto
  with assms show ?thesis
    by (simp add: Path_def split_on_no_sep)
qed

lemma joinpath_component:
  assumes "0x2F \<notin> set s" and "s \<noteq> []" and "s \<noteq> lit ''.''"
  shows "joinpath p s = p @ [s]"
proof -
  have "\<not> anchored [s]"
    using assms(1) by (auto simp: anchored_def)
  then show ?thesis
    by (simp add: joinpath_def Path_component [OF assms])
qed

lemma joinpath_lit:
  "CHR ''/'' \<notin> set s \<Longrightarrow> s \<noteq> [] \<Longrightarrow> s \<noteq> ''.'' \<Longrightarrow> joinpath p (lit s) = p @ [lit s]"
  by (rule joinpath_component) (simp_all add: slash_in_lit)

lemma parent_append: "p \<noteq> [] \<Longrightarrow> s \<noteq> [] \<Longrightarrow> parent (p @ s) = p @ butlast s"
  by (cases s rule: rev_cases) (auto simp: parent_def butlast_append)

lemma parent_self_iff: "parent p = p \<longleftrightarrow> p = [] \<or> (anchored p \<and> length p = 1)"
proof (cases p rule: rev_cases)
  case Nil
  then show ?thesis by (simp add: parent_def)
next
  case (snoc ys y)
  then show ?thesis by (auto simp: parent_def)
qed

subsection \<open>Events\<close>

lemma replay_Nil [simp]: "replay [] w = w"
  by (simp add: replay_def)

lemma replay_Cons: "replay (e # evs) w = replay evs (apply_event e w)"
  by (simp add: replay_def)

lemma replay_append: "replay (xs @ ys) w = replay ys (replay xs w)"
  by (simp add: replay_def)

lemma apply_event_replay [simp]: "apply_event e (replay evs w) = replay (evs @ [e]) w"
  by (simp add: replay_def)

lemma made_append [simp]: "made (xs @ ys) = made xs @ made ys"
  by (simp add: made_def)

lemma made_simps [simp]:
  "made [] = []"
  "made (Mkdir p # evs) = p # made evs"
  "made (Write p c # evs) = made evs"
  "made (Create p # evs) = made evs"
  "made (Utime p # evs) = made evs"
  by (simp_all add: made_def)

lemma made_map_Mkdir [simp]: "made (map Mkdir ps) = ps"
  by (induction ps) simp_all

lemma made_Cons: "made (e # evs) = made [e] @ made evs"
  by (simp add: made_def)

lemma written_append [simp]: "written (xs @ ys) = written xs @ written ys"
  by (simp add: written_def)

lemma written_simps [simp]:
  "written [] = []"
  "written (Mkdir p # evs) = written evs"
  "written (Write p c # evs) = p # written evs"
  "written (Create p # evs) = p # written evs"
  "written (Utime p # evs) = written evs"
  by (simp_all add: written_def)

lemma written_map_Mkdir [simp]: "written (map Mkdir ps) = []"
  by (induction ps) simp_all

lemma written_Cons: "written (e # evs) = written [e] @ written evs"
  by (simp add: written_def)

lemma apply_event_fields [simp]:
  "stdin (apply_event e w) = stdin w"
  "stdout (apply_event e w) = stdout w"
  "clock (apply_event e w) = clock w"
  "fs_trace (apply_event e w) = fs_trace w @ [e]"
  "fs_dirs (apply_event e w) = fs_dirs w \<union> set (made [e])"
  "dom (fs_files (apply_event e w)) = dom (fs_files w) \<union> set (written [e])"
  by (cases e; simp)+

lemma replay_fields [simp]:
  "stdin (replay evs w) = stdin w"
  "stdout (replay evs w) = stdout w"
  "clock (replay evs w) = clock w"
  "fs_trace (replay evs w) = fs_trace w @ evs"
  "fs_dirs (replay evs w) = fs_dirs w \<union> set (made evs)"
  "dom (fs_files (replay evs w)) = dom (fs_files w) \<union> set (written evs)"
proof (induction evs arbitrary: w)
  case Nil
  {
    case 1 show ?case by simp
  next
    case 2 show ?case by simp
  next
    case 3 show ?case by simp
  next
    case 4 show ?case by simp
  next
    case 5 show ?case by simp
  next
    case 6 show ?case by simp
  }
next
  case (Cons e evs)
  {
    case 1 show ?case by (simp add: replay_Cons Cons.IH)
  next
    case 2 show ?case by (simp add: replay_Cons Cons.IH)
  next
    case 3 show ?case by (simp add: replay_Cons Cons.IH)
  next
    case 4 show ?case by (simp add: replay_Cons Cons.IH)
  next
    case 5 show ?case
      by (simp add: replay_Cons Cons.IH made_Cons [of e evs] Un_assoc)
  next
    case 6 show ?case
      by (simp add: replay_Cons Cons.IH written_Cons [of e evs] Un_assoc)
  }
qed

lemma is_dir_replay [simp]: "is_dir (replay evs w) p \<longleftrightarrow> is_dir w p \<or> p \<in> set (made evs)"
  by (auto simp: is_dir_def)

lemma is_file_replay [simp]: "is_file (replay evs w) p \<longleftrightarrow> is_file w p \<or> p \<in> set (written evs)"
  by (auto simp: is_file_def)

lemma path_exists_replay [simp]:
  "path_exists (replay evs w) p \<longleftrightarrow> path_exists w p \<or> p \<in> set (made evs) \<or> p \<in> set (written evs)"
  by (auto simp: path_exists_def)

subsection \<open>File-system calls\<close>

lemma anchor_exists: "anchored p \<and> length p = 1 \<Longrightarrow> path_exists w p"
  by (simp add: path_exists_def is_dir_def)

lemma write_text_ok:
  "\<not> is_dir w p \<Longrightarrow> is_dir w (parent p) \<Longrightarrow> write_text p c w = (Inr (), apply_event (Write p c) w)"
  by (simp add: write_text_def)

lemma touch_new:
  "\<not> path_exists w p \<Longrightarrow> is_dir w (parent p) \<Longrightarrow> touch p w = (Inr (), apply_event (Create p) w)"
  by (simp add: touch_def)

lemma os_mkdir_ok:
  "\<not> path_exists w p \<Longrightarrow> is_dir w (parent p) \<Longrightarrow> os_mkdir p w = (Inr (), apply_event (Mkdir p) w)"
  by (simp add: os_mkdir_def)

lemma mkdir_ok:
  "\<not> path_exists w p \<Longrightarrow> is_dir w (parent p)
   \<Longrightarrow> mkdir p parents exist_ok w = (Inr (), apply_event (Mkdir p) w)"
  by (subst mkdir.simps) (simp add: os_mkdir_ok)

lemma mkdir_is_dir:
  "is_dir w p \<Longrightarrow> mkdir p parents True w = (Inr (), w)"
  by (subst mkdir.simps) (simp add: os_mkdir_def path_exists_def)

lemma wf_prefix_is_dir:
  assumes "wf_world w" and "path_exists w (q @ s)" and "s \<noteq> []"
  shows "is_dir w q"
  using assms(2,3)
proof (induction s rule: rev_induct)
  case Nil
  then show ?case by simp
next
  case (snoc x s)
  show ?case
  proof (cases "q @ s = []")
    case True
    then show ?thesis by (simp add: is_dir_def)
  next
    case False
    then have "length ((q @ s) @ [x]) \<noteq> 1"
      by simp
    then have "parent ((q @ s) @ [x]) = q @ s"
      unfolding parent_def by (simp only: butlast_snoc if_False simp_thms)
    then have par: "parent (q @ s @ [x]) = q @ s"
      by simp
    from False have "\<not> (anchored (q @ s @ [x]) \<and> length (q @ s @ [x]) = 1)"
      by auto
    with snoc.prems(1) have "q @ s @ [x] \<in> fs_dirs w \<union> dom (fs_files w)"
      by (auto simp: path_exists_def is_dir_def is_file_def)
    moreover from assms(1) have "\<forall>p \<in> fs_dirs w \<union> dom (fs_files w). is_dir w (parent p)"
      by (simp add: wf_world_def)
    ultimately have "is_dir w (parent (q @ s @ [x]))"
      by blast
    with par have dir: "is_dir w (q @ s)"
      by simp
    show ?thesis
    proof (cases "s = []")
      case True
      with dir show ?thesis by simp
    next
      case False
      with dir snoc.IH show ?thesis
        by (simp add: path_exists_def)
    qed
  qed
qed

lemma wf_fresh:
  assumes "wf_world w" and "\<not> path_exists w r"
  shows "\<not> path_exists w (r @ s)"
proof (cases "s = []")
  case True
  with assms(2) show ?thesis by simp
next
  case False
  show ?thesis
  proof
    assume "path_exists w (r @ s)"
    with assms(1) False have "is_dir w r"
      by (auto intro: wf_prefix_is_dir)
    with assms(2) show False
      by (simp add: path_exists_def)
  qed
qed

lemma prefixes_butlast: "p \<noteq> [] \<Longrightarrow> prefixes p = prefixes (butlast p) @ [p]"
  by (cases p rule: rev_cases) simp_all

lemma missing_Nil [simp]: "missing w [] = []"
  by (simp add: missing_def path_exists_def is_dir_def)

lemma set_missing: "set (missing w p) = {q. prefix q p \<and> \<not> path_exists w q}"
  by (auto simp: missing_def)

lemma missing_snoc:
  "missing w (p @ [x]) = missing w p @ (if path_exists w (p @ [x]) then [] else [p @ [x]])"
  by (simp add: missing_def)

lemma missing_exists:
  assumes "wf_world w" and "path_exists w p"
  shows "missing w p = []"
proof -
  have "path_exists w q" if "prefix q p" for q
  proof (cases "q = p")
    case True
    with assms(2) show ?thesis by simp
  next
    case False
    with that obtain s where "p = q @ s" "s \<noteq> []"
      by (auto simp: prefix_def)
    with assms have "is_dir w q"
      by (auto intro: wf_prefix_is_dir)
    then show ?thesis by (simp add: path_exists_def)
  qed
  then show ?thesis
    by (auto simp: missing_def filter_empty_conv)
qed

lemma parent_snoc: "\<not> path_exists w (p @ [x]) \<Longrightarrow> parent (p @ [x]) = p"
  by (auto simp: parent_def path_exists_def is_dir_def)

lemma mkdir_parents:
  assumes "wf_world w" and "\<forall>q. prefix q p \<longrightarrow> \<not> is_file w q"
  shows "mkdir p True True w = (Inr (), replay (map Mkdir (missing w p)) w)"
  using assms(2)
proof (induction p rule: rev_induct)
  case Nil
  then show ?case
    by (simp add: mkdir_is_dir is_dir_def)
next
  case (snoc x p)
  from snoc.prems have nofile: "\<forall>q. prefix q p \<longrightarrow> \<not> is_file w q"
    by simp
  show ?case
  proof (cases "path_exists w (p @ [x])")
    case True
    moreover from snoc.prems have "\<not> is_file w (p @ [x])"
      by simp
    ultimately have "is_dir w (p @ [x])"
      by (simp add: path_exists_def)
    then have "mkdir (p @ [x]) True True w = (Inr (), w)"
      by (rule mkdir_is_dir)
    with True assms(1) show ?thesis
      by (simp add: missing_exists)
  next
    case False
    then have par: "parent (p @ [x]) = p"
      by (rule parent_snoc)
    show ?thesis
    proof (cases "is_dir w p")
      case True
      with False par have "mkdir (p @ [x]) True True w = (Inr (), apply_event (Mkdir (p @ [x])) w)"
        by (simp add: mkdir_ok)
      moreover from True assms(1) have "missing w p = []"
        by (simp add: missing_exists path_exists_def)
      ultimately show ?thesis
        using False by (simp add: missing_snoc replay_Cons)
    next
      case nodir: False
      from nofile have "\<not> list_ex (is_file w) (prefixes p)"
        by (simp add: list_ex_iff)
      with False nodir par have os: "os_mkdir (p @ [x]) w = (Inl FileNotFoundError, w)"
        by (simp add: os_mkdir_def no_parent_def)
      from nofile have ih: "mkdir p True True w = (Inr (), replay (map Mkdir (missing w p)) w)"
        by (rule snoc.IH)
      from nodir nofile have "p \<in> set (missing w p)"
        by (simp add: set_missing path_exists_def)
      moreover have "p @ [x] \<notin> set (missing w p)"
        by (simp add: set_missing)
      ultimately have
        "mkdir (p @ [x]) False True (replay (map Mkdir (missing w p)) w)
         = (Inr (), apply_event (Mkdir (p @ [x])) (replay (map Mkdir (missing w p)) w))"
        using False par by (intro mkdir_ok) simp_all
      with os ih par show ?thesis
        using False by (subst mkdir.simps) (simp add: missing_snoc)
    qed
  qed
qed

lemma mkdir_blocked:
  assumes "wf_world w" and "\<not> path_exists w p" and "prefix q (parent p)" and "is_file w q"
  shows "mkdir p parents True w = (Inl NotADirectoryError, w)"
proof -
  have "\<not> is_dir w (parent p)"
  proof
    assume dir: "is_dir w (parent p)"
    have "is_dir w q"
    proof (cases "q = parent p")
      case True
      with dir show ?thesis by simp
    next
      case False
      with assms(3) obtain s where "parent p = q @ s" "s \<noteq> []"
        by (auto simp: prefix_def)
      with dir assms(1) show ?thesis
        by (auto intro: wf_prefix_is_dir simp: path_exists_def)
    qed
    with assms(1,4) show False
      by (auto simp: wf_world_def is_file_def)
  qed
  moreover from assms(3,4) have "list_ex (is_file w) (prefixes (parent p))"
    by (auto simp: list_ex_iff)
  ultimately have "os_mkdir p w = (Inl NotADirectoryError, w)"
    using assms(2) by (simp add: os_mkdir_def no_parent_def)
  moreover from assms(2) have "\<not> is_dir w p"
    by (simp add: path_exists_def)
  ultimately show ?thesis
    by (subst mkdir.simps) simp
qed

subsection \<open>Runs of \<open>create_project\<close>\<close>

lemma unobstructed_iff: "unobstructed w p \<longleftrightarrow> (\<forall>q. prefix q p \<longrightarrow> \<not> is_file w q)"
  by (auto simp: unobstructed_def list_ex_iff)

lemma io_simps:
  "io_return x w = (Inr x, w)"
  "io_raise e w = (Inl e, w)"
  "m w = (Inr x, w') \<Longrightarrow> io_bind m f w = f x w'"
  "m w = (Inl e, w') \<Longrightarrow> io_bind m f w = (Inl e, w')"
  "k w = (Inr (), w') \<Longrightarrow> io_seq k n w = n w'"
  "k w = (Inl e, w') \<Longrightarrow> io_seq k n w = (Inl e, w')"
  "io_when True k = k"
  "io_when False k = io_return ()"
  by (simp_all add: io_return_def io_raise_def io_bind_def io_seq_def io_when_def)

lemma create_project_fresh:
  assumes wf: "wf_world w"
    and fresh: "\<not> path_exists w root"
    and clear: "unobstructed w root"
    and root: "root = Path (name i)"
  shows "create_project i w
         = (Inr root, replay (map Mkdir (missing w root) @ project_events i (clock w) root) w)"
proof -
  have nofile: "\<forall>q. prefix q root \<longrightarrow> \<not> is_file w q"
    using clear by (simp add: unobstructed_iff)
  have ne: "root \<noteq> []"
    using fresh by (auto simp: path_exists_def is_dir_def)
  have fr: "\<not> path_exists w (root @ s)" "\<not> is_dir w (root @ s)" "\<not> is_file w (root @ s)" for s
    using wf_fresh [OF wf fresh, of s] by (simp_all add: path_exists_def)
  have fr0: "\<not> is_dir w root" "\<not> is_file w root"
    using fresh by (simp_all add: path_exists_def)
  have in_missing: "root @ s \<in> set (missing w root) \<longleftrightarrow> s = []" for s
    using fresh by (auto simp: set_missing)
  have root_missing: "root \<in> set (missing w root)"
    using fresh by (simp add: set_missing)
  have nofile1: "\<forall>q. prefix q (root @ [lit ''specs'', lit ''01-requirements'']) \<longrightarrow> \<not> is_file w q"
  proof (intro allI impI)
    fix q assume "prefix q (root @ [lit ''specs'', lit ''01-requirements''])"
    then have "prefix q root \<or> (\<exists>s. q = root @ s)"
      by (auto simp: prefix_append)
    with nofile fr(3) show "\<not> is_file w q"
      by auto
  qed
  have m1: "missing w (root @ [lit ''specs'', lit ''01-requirements''])
            = missing w root @ [root @ [lit ''specs''], root @ [lit ''specs'', lit ''01-requirements'']]"
    using missing_snoc [of w "root @ [lit ''specs'']" "lit ''01-requirements''"]
      missing_snoc [of w root "lit ''specs''"] fr(1)
    by simp
  have step1: "mkdir (root @ [lit ''specs'', lit ''01-requirements'']) True True w
    = (Inr (), replay (map Mkdir (missing w root @ [root @ [lit ''specs''], root @ [lit ''specs'', lit ''01-requirements'']])) w)"
    using mkdir_parents [OF wf nofile1] m1 by simp
  note run = exists_def joinpath_lit io_simps step1 mkdir_ok write_text_ok touch_new
    parent_append ne fr fr0 in_missing root_missing project_events_def
  consider (alg) "project_type i = lit ''Algorithm implementation''"
    | (dp) "project_type i = lit ''Data pipeline''"
    | (gen) "project_type i \<noteq> lit ''Algorithm implementation''"
            "project_type i \<noteq> lit ''Data pipeline''"
    by blast
  then show ?thesis
  proof cases
    case alg
    consider (cc) "ai_tool i = lit ''Claude Code''" | (cu) "ai_tool i = lit ''Cursor''"
      | (gh) "ai_tool i = lit ''GitHub Copilot''"
      | (no) "ai_tool i \<noteq> lit ''Claude Code''" "ai_tool i \<noteq> lit ''Cursor''"
             "ai_tool i \<noteq> lit ''GitHub Copilot''"
      by blast
    then show ?thesis
    proof cases
      case cc
      show ?thesis
        using fresh unfolding create_project_def Let_def root [symmetric] alg cc
        by (simp add: run alg cc)
    next
      case cu
      show ?thesis
        using fresh unfolding create_project_def Let_def root [symmetric] alg cu
        by (simp add: run alg cu)
    next
      case gh
      show ?thesis
        using fresh unfolding create_project_def Let_def root [symmetric] alg gh
        by (simp add: run alg gh)
    next
      case no
      show ?thesis
        using fresh unfolding create_project_def Let_def root [symmetric] alg
        by (simp add: run alg no)
    qed
  next
    case dp
    consider (cc) "ai_tool i = lit ''Claude Code''" | (cu) "ai_tool i = lit ''Cursor''"
      | (gh) "ai_tool i = lit ''GitHub Copilot''"
      | (no) "ai_tool i \<noteq> lit ''Claude Code''" "ai_tool i \<noteq> lit ''Cursor''"
             "ai_tool i \<noteq> lit ''GitHub Copilot''"
      by blast
    then show ?thesis
    proof cases
      case cc
      show ?thesis
        using fresh unfolding create_project_def Let_def root [symmetric] dp cc
        by (simp add: run dp cc)
    next
      case cu
      show ?thesis
        using fresh unfolding create_project_def Let_def root [symmetric] dp cu
        by (simp add: run dp cu)
    next
      case gh
      show ?thesis
        using fresh unfolding create_project_def Let_def root [symmetric] dp gh
        by (simp add: run dp gh)
    next
      case no
      show ?thesis
        using fresh unfolding create_project_def Let_def root [symmetric] dp
        by (simp add: run dp no)
    qed
  next
    case gen
    consider (cc) "ai_tool i = lit ''Claude Code''" | (cu) "ai_tool i = lit ''Cursor''"
      | (gh) "ai_tool i = lit ''GitHub Copilot''"
      | (no) "ai_tool i \<noteq> lit ''Claude Code''" "ai_tool i \<noteq> lit ''Cursor''"
             "ai_tool i \<noteq> lit ''GitHub Copilot''"
      by blast
    then show ?thesis
    proof cases
      case cc
      show ?thesis
        using fresh unfolding create_project_def Let_def root [symmetric] cc
        by (simp add: run gen cc)
    next
      case cu
      show ?thesis
        using fresh unfolding create_project_def Let_def root [symmetric] cu
        by (simp add: run gen cu)
    next
      case gh
      show ?thesis
        using fresh unfolding create_project_def Let_def root [symmetric] gh
        by (simp add: run gen gh)
    next
      case no
      show ?thesis
        using fresh unfolding create_project_def Let_def root [symmetric]
        by (simp add: run gen no)
    qed
  qed
qed

lemma create_project_exists:
  assumes "path_exists w (Path (name i))"
  shows "create_project i w
         = (Inl (SystemExit 1),
            w\<lparr>stdout := stdout w @ [0xA] @ lit ''Error: Directory '' @ [0x27] @ name i @ [0x27]
                          @ lit '' already exists.'' @ [0xA]\<rparr>)"
  using assms unfolding create_project_def Let_def
  by (simp add: exists_def io_simps print_def)

lemma create_project_blocked:
  assumes wf: "wf_world w"
    and fresh: "\<not> path_exists w root"
    and blocked: "\<not> unobstructed w root"
    and root: "root = Path (name i)"
  shows "create_project i w = (Inl NotADirectoryError, w)"
proof -
  from blocked obtain q where q: "prefix q root" "is_file w q"
    by (auto simp: unobstructed_iff)
  have ne: "root \<noteq> []"
    using fresh by (auto simp: path_exists_def is_dir_def)
  have "\<not> path_exists w (root @ [lit ''specs'', lit ''01-requirements''])"
    using wf fresh by (rule wf_fresh)
  moreover from q(1) have "prefix q (parent (root @ [lit ''specs'', lit ''01-requirements'']))"
    by (simp add: parent_append ne prefix_prefix)
  ultimately have
    "mkdir (root @ [lit ''specs'', lit ''01-requirements'']) True True w = (Inl NotADirectoryError, w)"
    using wf q(2) by (intro mkdir_blocked [where q = q]) simp_all
  then show ?thesis
    using fresh unfolding create_project_def Let_def root [symmetric]
    by (simp add: exists_def joinpath_lit io_simps)
qed

lemma Path_lit:
  "CHR ''/'' \<notin> set s \<Longrightarrow> s \<noteq> [] \<Longrightarrow> s \<noteq> ''.'' \<Longrightarrow> Path (lit s) = [lit s]"
  by (rule Path_component) (simp_all add: slash_in_lit)

lemma wf_empty_world: "wf_world empty_world"
  by (simp add: wf_world_def empty_world_def)

lemma missing_single: "\<not> path_exists w [x] \<Longrightarrow> missing w [x] = [[x]]"
  using missing_snoc [of w "[]" x] by simp

lemma new_events_replay [simp]: "new_events w (replay evs w) = evs"
  by (simp add: new_events_def)

lemma seismic_root: "Path (name seismic) = [lit ''seismic-analysis'']"
  by (simp add: seismic_def Path_lit)

lemma empty_world_fresh: "p \<noteq> [] \<Longrightarrow> \<not> anchored p \<Longrightarrow> \<not> path_exists empty_world p"
  by (simp add: path_exists_def is_dir_def is_file_def empty_world_def)

lemma seismic_fresh: "\<not> path_exists empty_world (Path (name seismic))"
  by (simp add: seismic_root empty_world_fresh anchored_def lit_def)

lemma unobstructed_empty_world: "unobstructed empty_world p"
  by (simp add: unobstructed_def is_file_def empty_world_def list_ex_iff)

lemma unobstructed_single:
  assumes "wf_world w" and "\<not> path_exists w [x]"
  shows "unobstructed w [x]"
proof -
  have "\<not> is_file w []"
    using assms(1) by (auto simp: wf_world_def is_file_def is_dir_def)
  moreover have "\<not> is_file w [x]"
    using assms(2) by (simp add: path_exists_def)
  ultimately show ?thesis
    by (simp add: unobstructed_def)
qed

lemma fs_files_replay_other:
  "p \<notin> set (written evs) \<Longrightarrow> fs_files (replay evs w) p = fs_files w p"
proof (induction evs arbitrary: w)
  case Nil
  then show ?case by simp
next
  case (Cons e evs)
  from Cons.prems have "p \<notin> set (written evs)" "p \<notin> set (written [e])"
    by (simp_all add: written_Cons [of e evs])
  then show ?case
    by (cases e) (simp_all add: replay_Cons Cons.IH)
qed

lemma nested_root: "Path (name nested) = [lit ''a'', lit ''b'']"
  by (simp add: nested_def Path_def lit_def)

lemma create_project_outcome:
  assumes "wf_world w"
  obtains (exists) "path_exists w (Path (name i))"
      "create_project i w
         = (Inl (SystemExit 1),
            w\<lparr>stdout := stdout w @ [0xA] @ lit ''Error: Directory '' @ [0x27] @ name i @ [0x27]
                          @ lit '' already exists.'' @ [0xA]\<rparr>)"
    | (blocked) "\<not> path_exists w (Path (name i))" "\<not> unobstructed w (Path (name i))"
      "create_project i w = (Inl NotADirectoryError, w)"
    | (fresh) "\<not> path_exists w (Path (name i))" "unobstructed w (Path (name i))"
      "create_project i w
         = (Inr (Path (name i)),
            replay (map Mkdir (missing w (Path (name i)))
                    @ project_events i (clock w) (Path (name i))) w)"
proof (cases "path_exists w (Path (name i))")
  case True
  then show ?thesis
    using create_project_exists [OF True] by (rule exists)
next
  case nex: False
  show ?thesis
  proof (cases "unobstructed w (Path (name i))")
    case True
    with assms nex show ?thesis
      by (intro fresh create_project_fresh) simp_all
  next
    case False
    with assms nex show ?thesis
      by (intro blocked create_project_blocked) simp_all
  qed
qed

lemma project_events_under_root:
  "e \<in> set (project_events i c root) \<Longrightarrow> e \<in> Mkdir ` {p. prefix root p} \<union> {Write p d |p d. prefix root p} \<union> Create ` {p. prefix root p}"
  by (auto simp: project_events_def split: if_splits)

lemma made_project_events: "p \<in> set (made (project_events i c root)) \<Longrightarrow> prefix root p"
  by (auto simp: project_events_def split: if_splits)

lemma written_project_events: "p \<in> set (written (project_events i c root)) \<Longrightarrow> prefix root p"
  by (auto simp: project_events_def split: if_splits)

lemma no_utime_project_events: "Utime p \<notin> set (project_events i c root)"
  by (auto simp: project_events_def split: if_splits)

lemma nested_run:
  "create_project nested empty_world
   = (Inr [lit ''a'', lit ''b''],
      replay (map Mkdir [[lit ''a''], [lit ''a'', lit ''b'']]
              @ project_events nested (clock empty_world) [lit ''a'', lit ''b'']) empty_world)"
proof -
  let ?root = "[lit ''a'', lit ''b'']"
  have fresh: "\<not> path_exists empty_world ?root"
    by (simp add: empty_world_fresh anchored_def lit_def)
  have "create_project nested empty_world
        = (Inr ?root, replay (map Mkdir (missing empty_world ?root)
                              @ project_events nested (clock empty_world) ?root) empty_world)"
    using wf_empty_world fresh unobstructed_empty_world
    by (rule create_project_fresh) (simp add: nested_root)
  moreover have "missing empty_world ?root = [[lit ''a''], ?root]"
    using missing_snoc [of empty_world "[lit ''a'']" "lit ''b''"]
      missing_snoc [of empty_world "[]" "lit ''a''"]
    by (simp add: empty_world_fresh anchored_def lit_def)
  ultimately show ?thesis
    by simp
qed

lemma seismic_run:
  "create_project seismic empty_world
   = (Inr [lit ''seismic-analysis''],
      replay (Mkdir [lit ''seismic-analysis'']
              # project_events seismic (clock empty_world) [lit ''seismic-analysis'']) empty_world)"
proof -
  let ?root = "[lit ''seismic-analysis'']"
  have fresh: "\<not> path_exists empty_world ?root"
    using seismic_fresh by (simp add: seismic_root)
  have "create_project seismic empty_world
        = (Inr ?root, replay (map Mkdir (missing empty_world ?root)
                              @ project_events seismic (clock empty_world) ?root) empty_world)"
    using wf_empty_world fresh unobstructed_empty_world
    by (rule create_project_fresh) (simp add: seismic_root)
  moreover have "missing empty_world ?root = [?root]"
    using fresh by (rule missing_single)
  ultimately show ?thesis
    by simp
qed

subsection \<open>Prompts\<close>

lemma input_Cons:
  "stdin w = l # ls \<Longrightarrow> input p w = (Inr l, w\<lparr>stdin := ls, stdout := stdout w @ p\<rparr>)"
  by (simp add: input_def)

lemma input_Nil:
  "stdin w = [] \<Longrightarrow> input p w = (Inl EOFError, w\<lparr>stdout := stdout w @ p\<rparr>)"
  by (simp add: input_def)

lemma block_prints:
  "block (map (\<lambda>x. print (f x)) xs) w
   = (Inr (), w\<lparr>stdout := stdout w @ concat (map (\<lambda>x. f x @ [0xA]) xs)\<rparr>)"
proof (induction xs arbitrary: w)
  case Nil
  then show ?case by (simp add: io_simps)
next
  case (Cons x xs)
  have "print (f x) w = (Inr (), w\<lparr>stdout := stdout w @ f x @ [0xA]\<rparr>)"
    by (simp add: print_def)
  then show ?case
    by (simp add: io_simps Cons.IH)
qed

lemma loop_eof:
  assumes "stdin w = []"
  shows "prompt_choice_loop options w
         = (Inl EOFError, w\<lparr>stdout := stdout w @ lit ''Enter number: ''\<rparr>)"
  by (subst prompt_choice_loop.simps) (simp add: input_Nil [OF assms] io_simps)

lemma loop_accept:
  assumes "stdin w = l # ls" and "py_int (strip l) = Some i" and "1 \<le> i" and "i \<le> int (length options)"
  shows "prompt_choice_loop options w
         = (Inr (options ! nat (i - 1)),
            w\<lparr>stdin := ls, stdout := stdout w @ lit ''Enter number: ''\<rparr>)"
  using assms(2-)
  by (subst prompt_choice_loop.simps) (simp add: input_Cons [OF assms(1)] io_simps)

lemma loop_reject:
  assumes "stdin w = l # ls" and "\<not> accepts (length options) l"
  shows "prompt_choice_loop options w
         = prompt_choice_loop options
             (w\<lparr>stdin := ls, stdout := stdout w @ lit ''Enter number: '' @ guidance options\<rparr>)"
proof -
  have "(case py_int (strip l) of None \<Rightarrow> None
         | Some choice \<Rightarrow> if 1 \<le> choice \<and> choice \<le> int (length options)
                        then Some (options ! nat (choice - 1)) else None) = None"
    using assms(2) by (auto simp: accepts_def split: option.splits)
  then show ?thesis
    by (subst prompt_choice_loop.simps)
       (simp add: input_Cons [OF assms(1)] io_simps print_def guidance_def)
qed

lemma loop_rejects:
  assumes "stdin w = bad @ rest" and "\<forall>b \<in> set bad. \<not> accepts (length options) b"
  shows "prompt_choice_loop options w
         = prompt_choice_loop options
             (w\<lparr>stdin := rest,
                stdout := stdout w
                  @ concat (map (\<lambda>b. lit ''Enter number: '' @ guidance options) bad)\<rparr>)"
  using assms
proof (induction bad arbitrary: w)
  case Nil
  then have "rest = stdin w"
    by simp
  then show ?case by simp
next
  case (Cons b bad)
  from Cons.prems have "stdin w = b # (bad @ rest)" "\<not> accepts (length options) b"
    by simp_all
  then have "prompt_choice_loop options w
         = prompt_choice_loop options
             (w\<lparr>stdin := bad @ rest, stdout := stdout w @ lit ''Enter number: '' @ guidance options\<rparr>)"
    by (rule loop_reject)
  also have "\<dots> = prompt_choice_loop options
             (w\<lparr>stdin := rest,
                stdout := stdout w
                  @ concat (map (\<lambda>b. lit ''Enter number: '' @ guidance options) (b # bad))\<rparr>)"
    using Cons.prems(2) by (subst Cons.IH) simp_all
  finally show ?case .
qed

lemma prompt_choice_menu:
  "prompt_choice question options w
   = prompt_choice_loop options (w\<lparr>stdout := stdout w @ menu question options\<rparr>)"
proof -
  have "print ([0xA] @ question) w = (Inr (), w\<lparr>stdout := stdout w @ [0xA] @ question @ [0xA]\<rparr>)"
    by (simp add: print_def)
  moreover have "(\<lambda>(i, option). print (lit ''  '' @ str_of_nat i @ lit ''. '' @ option))
                 = (\<lambda>x. print (case x of (i, option) \<Rightarrow> lit ''  '' @ str_of_nat i @ lit ''. '' @ option))"
    by auto
  ultimately show ?thesis
    unfolding prompt_choice_def
    by (simp add: io_simps block_prints menu_def split_def)
qed

lemma py_int_examples:
  "py_int (strip (lit ''abc'')) = None"
  "py_int (strip (lit ''0'')) = Some 0"
  "py_int (strip (lit ''2'')) = Some 2"
  by (simp_all add: py_int_def strip_def lit_def isspace_def int_space_def decimal_def
      decimal_zeros_def int_max_str_digits_def)

lemma prompt_choice_accept:
  assumes "stdin w = bad @ line # rest"
    and "\<forall>b \<in> set bad. \<not> accepts (length options) b"
    and "py_int (strip line) = Some i" and "1 \<le> i" and "i \<le> int (length options)"
  shows "prompt_choice question options w
        = (Inr (options ! nat (i - 1)),
           w\<lparr>stdin := rest,
              stdout := stdout w @ menu question options
                @ concat (map (\<lambda>b. lit ''Enter number: '' @ guidance options) bad)
                @ lit ''Enter number: ''\<rparr>)"
proof -
  let ?w1 = "w\<lparr>stdout := stdout w @ menu question options\<rparr>"
  let ?w2 = "?w1\<lparr>stdin := line # rest,
                   stdout := stdout ?w1
                     @ concat (map (\<lambda>b. lit ''Enter number: '' @ guidance options) bad)\<rparr>"
  from assms(1,2) have "prompt_choice_loop options ?w1 = prompt_choice_loop options ?w2"
    by (intro loop_rejects) simp_all
  moreover from assms(3-) have "prompt_choice_loop options ?w2
      = (Inr (options ! nat (i - 1)), ?w2\<lparr>stdin := rest, stdout := stdout ?w2 @ lit ''Enter number: ''\<rparr>)"
    by (intro loop_accept [where l = line]) simp_all
  ultimately show ?thesis
    by (simp add: prompt_choice_menu)
qed

lemma prompt_choice_eof:
  assumes "\<forall>b \<in> set (stdin w). \<not> accepts (length options) b"
  shows "prompt_choice question options w
        = (Inl EOFError,
           w\<lparr>stdin := [],
              stdout := stdout w @ menu question options
                @ concat (map (\<lambda>b. lit ''Enter number: '' @ guidance options) (stdin w))
                @ lit ''Enter number: ''\<rparr>)"
proof -
  let ?w1 = "w\<lparr>stdout := stdout w @ menu question options\<rparr>"
  let ?w2 = "?w1\<lparr>stdin := [],
                   stdout := stdout ?w1
                     @ concat (map (\<lambda>b. lit ''Enter number: '' @ guidance options) (stdin w))\<rparr>"
  from assms have "prompt_choice_loop options ?w1 = prompt_choice_loop options ?w2"
    by (intro loop_rejects) simp_all
  moreover have "prompt_choice_loop options ?w2
      = (Inl EOFError, ?w2\<lparr>stdout := stdout ?w2 @ lit ''Enter number: ''\<rparr>)"
    by (intro loop_eof) simp
  ultimately show ?thesis
    by (simp add: prompt_choice_menu)
qed

subsection \<open>Gathering the inputs\<close>

lemma strip_edges:
  assumes "strip s \<noteq> []"
  shows "\<not> isspace (hd (strip s))" and "\<not> isspace (last (strip s))"
proof -
  let ?t = "dropWhile isspace s"
  let ?u = "dropWhile isspace (rev ?t)"
  from assms have u: "?u \<noteq> []"
    by (simp add: strip_def)
  then have "\<not> isspace (hd ?u)"
    by (rule hd_dropWhile)
  with u show "\<not> isspace (last (strip s))"
    by (simp add: strip_def last_rev)
  have t: "?t \<noteq> []"
  proof
    assume "?t = []"
    then have "?u = []"
      by (auto dest: set_dropWhileD)
    with u show False
      by contradiction
  qed
  then have nsp: "\<not> isspace (hd ?t)"
    by (rule hd_dropWhile)
  have "rev ?t = takeWhile isspace (rev ?t) @ ?u"
    by simp
  then have "?t = rev ?u @ rev (takeWhile isspace (rev ?t))"
    by (metis rev_append rev_rev_ident)
  with u have "hd ?t = hd (rev ?u)"
    by (metis hd_append2 rev_is_Nil_conv)
  with nsp show "\<not> isspace (hd (strip s))"
    by (simp add: strip_def)
qed

lemma strip_empty_iff: "strip s = [] \<longleftrightarrow> (\<forall>c \<in> set s. isspace c)"
proof
  assume "\<forall>c \<in> set s. isspace c"
  then have "dropWhile isspace s = []"
    by simp
  then show "strip s = []"
    by (auto simp: strip_def dest: set_dropWhileD)
next
  assume e: "strip s = []"
  let ?t = "dropWhile isspace s"
  have "?t = []"
  proof (rule ccontr)
    assume t: "?t \<noteq> []"
    then have "\<not> isspace (hd ?t)"
      by (rule hd_dropWhile)
    moreover from e have "\<forall>c \<in> set ?t. isspace c"
      by (simp add: strip_def)
    ultimately show False
      using t by (metis list.set_sel(1))
  qed
  then show "\<forall>c \<in> set s. isspace c"
    by simp
qed

lemma prompt_plain:
  "stdin w = l # ls
   \<Longrightarrow> prompt q [] w = (Inr (strip l), w\<lparr>stdin := ls, stdout := stdout w @ q @ lit '': ''\<rparr>)"
  by (simp add: prompt_def io_simps input_Cons)

lemma prompt_default:
  "dflt \<noteq> [] \<Longrightarrow> stdin w = l # ls
   \<Longrightarrow> prompt q dflt w
       = (Inr (if strip l \<noteq> [] then strip l else dflt),
          w\<lparr>stdin := ls, stdout := stdout w @ q @ lit '' ['' @ dflt @ lit '']: ''\<rparr>)"
  by (simp add: prompt_def io_simps input_Cons Let_def)

lemma name_loop_done: "n \<noteq> [] \<Longrightarrow> name_loop n w = (Inr n, w)"
  by (subst name_loop.simps) (simp add: io_simps)

lemma name_loop_again:
  assumes "stdin w = l # ls"
  shows "name_loop [] w
         = name_loop (strip l)
             (w\<lparr>stdin := ls,
                stdout := stdout w @ lit ''Project name is required.'' @ [0xA]
                          @ lit ''Project name: ''\<rparr>)"
proof -
  let ?w1 = "w\<lparr>stdout := stdout w @ lit ''Project name is required.'' @ [0xA]\<rparr>"
  have 1: "print (lit ''Project name is required.'') w = (Inr (), ?w1)"
    by (simp add: print_def)
  have 2: "prompt (lit ''Project name'') [] ?w1
           = (Inr (strip l), ?w1\<lparr>stdin := ls, stdout := stdout ?w1 @ lit ''Project name'' @ lit '': ''\<rparr>)"
    using assms by (intro prompt_plain) simp
  have 3: "lit ''Project name'' @ lit '': '' = lit ''Project name: ''"
    by (simp add: lit_def)
  show ?thesis
    by (subst name_loop.simps) (simp add: io_simps 1 2 3)
qed

lemma name_loop_blanks:
  assumes "stdin w = blanks @ nm # rest" and "\<forall>b \<in> set blanks. strip b = []" and "strip nm \<noteq> []"
  shows "name_loop [] w
         = (Inr (strip nm),
            w\<lparr>stdin := rest,
               stdout := stdout w
                 @ concat (map (\<lambda>b. lit ''Project name is required.'' @ [0xA] @ lit ''Project name: '')
                               (blanks @ [nm]))\<rparr>)"
  using assms(1,2)
proof (induction blanks arbitrary: w)
  case Nil
  then have "stdin w = nm # rest"
    by simp
  then show ?case
    using assms(3) by (simp add: name_loop_again name_loop_done)
next
  case (Cons b blanks)
  then have "stdin w = b # (blanks @ nm # rest)" "strip b = []"
    by simp_all
  then have "name_loop [] w
      = name_loop []
          (w\<lparr>stdin := blanks @ nm # rest,
             stdout := stdout w @ lit ''Project name is required.'' @ [0xA] @ lit ''Project name: ''\<rparr>)"
    by (simp add: name_loop_again)
  also have "\<dots> = (Inr (strip nm),
            w\<lparr>stdin := rest,
               stdout := stdout w
                 @ concat (map (\<lambda>b. lit ''Project name is required.'' @ [0xA] @ lit ''Project name: '')
                               ((b # blanks) @ [nm]))\<rparr>)"
    using Cons.prems(2) by (subst Cons.IH) simp_all
  finally show ?case .
qed

lemma name_phase:
  assumes "stdin w = blanks @ nm # rest" and "\<forall>b \<in> set blanks. strip b = []" and "strip nm \<noteq> []"
  shows "\<exists>out. io_bind (prompt q []) name_loop w
               = (Inr (strip nm), w\<lparr>stdin := rest, stdout := stdout w @ out\<rparr>)"
proof (cases blanks)
  case Nil
  with assms(1) have "stdin w = nm # rest"
    by simp
  then have "io_bind (prompt q []) name_loop w
             = (Inr (strip nm), w\<lparr>stdin := rest, stdout := stdout w @ q @ lit '': ''\<rparr>)"
    using assms(3) by (simp add: io_simps prompt_plain name_loop_done)
  then show ?thesis
    by blast
next
  case (Cons b bs)
  with assms(1,2) have st: "stdin w = b # (bs @ nm # rest)" and b: "strip b = []"
    and bs: "\<forall>b \<in> set bs. strip b = []"
    by simp_all
  let ?w1 = "w\<lparr>stdin := bs @ nm # rest, stdout := stdout w @ q @ lit '': ''\<rparr>"
  have "name_loop [] ?w1
         = (Inr (strip nm),
            ?w1\<lparr>stdin := rest,
               stdout := stdout ?w1
                 @ concat (map (\<lambda>b. lit ''Project name is required.'' @ [0xA] @ lit ''Project name: '')
                               (bs @ [nm]))\<rparr>)"
    using bs assms(3) by (intro name_loop_blanks) simp_all
  with st b have "io_bind (prompt q []) name_loop w
         = (Inr (strip nm),
            w\<lparr>stdin := rest,
               stdout := stdout w @ (q @ lit '': '')
                 @ concat (map (\<lambda>b. lit ''Project name is required.'' @ [0xA] @ lit ''Project name: '')
                               (bs @ [nm]))\<rparr>)"
    by (simp add: io_simps prompt_plain)
  then show ?thesis
    by blast
qed

lemma io_bindI: "m w = (Inr x, w') \<Longrightarrow> f x w' = r \<Longrightarrow> io_bind m f w = r"
  by (simp add: io_bind_def)

lemma io_seqI: "m w = (Inr (), w') \<Longrightarrow> k w' = r \<Longrightarrow> io_seq m k w = r"
  by (simp add: io_seq_def io_bind_def)

lemma gather_inputs_run:
  assumes stdin: "stdin w = blanks @ nm # d # tbad @ t # abad @ a # rest"
    and blanks: "\<forall>b \<in> set blanks. strip b = []" and nm: "strip nm \<noteq> []"
    and tbad: "\<forall>b \<in> set tbad. \<not> accepts 4 b"
    and t: "py_int (strip t) = Some ti" "1 \<le> ti" "ti \<le> 4"
    and abad: "\<forall>b \<in> set abad. \<not> accepts 4 b"
    and a: "py_int (strip a) = Some ai" "1 \<le> ai" "ai \<le> 4"
  shows "\<exists>w'. gather_inputs w
           = (Inr \<lparr>name = strip nm,
                   description = (if strip d \<noteq> [] then strip d
                                  else lit ''A spec-driven scientific project''),
                   project_type = [lit ''Data pipeline'', lit ''Analysis tool'',
                                   lit ''Algorithm implementation'', lit ''General'']
                                  ! nat (ti - 1),
                   ai_tool = [lit ''Claude Code'', lit ''Cursor'', lit ''GitHub Copilot'',
                              lit ''Other/None''] ! nat (ai - 1)\<rparr>, w')
         \<and> stdin w' = rest"
proof -
  let ?types = "[lit ''Data pipeline'', lit ''Analysis tool'', lit ''Algorithm implementation'',
                 lit ''General'']"
  let ?tools = "[lit ''Claude Code'', lit ''Cursor'', lit ''GitHub Copilot'', lit ''Other/None'']"
  let ?dflt = "lit ''A spec-driven scientific project''"
  have len: "length ?types = 4" "length ?tools = 4"
    by simp_all
  let ?w0 = "w\<lparr>stdout := stdout w @ [0xA] @ lit ''=== Spec-Driven Project Scaffolder ==='' @ [0xA] @ [0xA]\<rparr>"
  have s0: "print ([0xA] @ lit ''=== Spec-Driven Project Scaffolder ==='' @ [0xA]) w = (Inr (), ?w0)"
    by (simp add: print_def)
  from stdin have "stdin ?w0 = blanks @ nm # (d # tbad @ t # abad @ a # rest)"
    by simp
  from name_phase [OF this blanks nm]
  obtain out1 where s1: "io_bind (prompt (lit ''Project name (e.g., seismic-analysis)'') []) name_loop ?w0
      = (Inr (strip nm), ?w0\<lparr>stdin := d # tbad @ t # abad @ a # rest, stdout := stdout ?w0 @ out1\<rparr>)"
    by blast
  let ?w1 = "?w0\<lparr>stdin := d # tbad @ t # abad @ a # rest, stdout := stdout ?w0 @ out1\<rparr>"
  let ?w2 = "?w1\<lparr>stdin := tbad @ t # abad @ a # rest,
                   stdout := stdout ?w1 @ lit ''One-line description'' @ lit '' ['' @ ?dflt @ lit '']: ''\<rparr>"
  have s2: "prompt (lit ''One-line description'') ?dflt ?w1
            = (Inr (if strip d \<noteq> [] then strip d else ?dflt), ?w2)"
    by (intro prompt_default) simp_all
  let ?w3 = "?w2\<lparr>stdin := abad @ a # rest,
              stdout := stdout ?w2 @ menu (lit ''Project type:'') ?types
                @ concat (map (\<lambda>b. lit ''Enter number: '' @ guidance ?types) tbad)
                @ lit ''Enter number: ''\<rparr>"
  have s3: "prompt_choice (lit ''Project type:'') ?types ?w2 = (Inr (?types ! nat (ti - 1)), ?w3)"
    using tbad t unfolding len [symmetric]
    by (intro prompt_choice_accept [where line = t]) (simp_all only: len, simp_all)
  let ?w4 = "?w3\<lparr>stdin := rest,
              stdout := stdout ?w3 @ menu (lit ''Primary AI coding assistant:'') ?tools
                @ concat (map (\<lambda>b. lit ''Enter number: '' @ guidance ?tools) abad)
                @ lit ''Enter number: ''\<rparr>"
  have s4: "prompt_choice (lit ''Primary AI coding assistant:'') ?tools ?w3
            = (Inr (?tools ! nat (ai - 1)), ?w4)"
    using abad a
    by (intro prompt_choice_accept [where line = a]) (simp_all only: len, simp_all)
  have "gather_inputs w
        = (Inr \<lparr>name = strip nm,
                 description = (if strip d \<noteq> [] then strip d else ?dflt),
                 project_type = ?types ! nat (ti - 1),
                 ai_tool = ?tools ! nat (ai - 1)\<rparr>, ?w4)"
    unfolding gather_inputs_def
    by (rule io_seqI, rule s0, rule io_bindI, rule s1, rule io_bindI, rule s2,
        rule io_bindI, rule s3, rule io_bindI, rule s4) (simp add: io_return_def)
  moreover have "stdin ?w4 = rest"
    by simp
  ultimately show ?thesis
    by blast
qed

lemma io_bind_InrD:
  assumes "io_bind m f w = (Inr y, w')"
  obtains x v where "m w = (Inr x, v)" and "f x v = (Inr y, w')"
  using assms by (auto simp: io_bind_def split: prod.splits sum.splits)

lemma io_seq_InrD:
  assumes "io_seq m k w = (Inr y, w')"
  obtains v where "m w = (Inr (), v)" and "k v = (Inr y, w')"
  using assms by (auto simp: io_seq_def io_bind_def split: prod.splits sum.splits)

lemma prompt_plain_result:
  assumes "prompt q [] w = (Inr x, v)"
  shows "\<exists>l. x = strip l"
  using assms
  by (auto simp: prompt_def io_bind_def io_return_def input_def split: list.splits)

lemma name_loop_result:
  "name_loop n w = (Inr m, w') \<Longrightarrow> m \<noteq> [] \<and> (m = n \<or> (\<exists>l. m = strip l))"
proof (induction n w rule: name_loop.induct)
  case (1 n w)
  show ?case
  proof (cases "n = []")
    case False
    with "1.prems" show ?thesis
      by (simp add: name_loop_done)
  next
    case True
    with "1.prems" have "io_seq (print (lit ''Project name is required.''))
                 (io_bind (prompt (lit ''Project name'') []) name_loop) w = (Inr m, w')"
      by (subst (asm) name_loop.simps) simp
    then obtain v where v: "print (lit ''Project name is required.'') w = (Inr (), v)"
      and "io_bind (prompt (lit ''Project name'') []) name_loop v = (Inr m, w')"
      by (rule io_seq_InrD)
    then obtain x va where x: "prompt (lit ''Project name'') [] v = (Inr x, va)"
      and loop: "name_loop x va = (Inr m, w')"
      by (auto elim: io_bind_InrD)
    from "1.IH" [OF True v x loop] have "m \<noteq> [] \<and> (m = x \<or> (\<exists>l. m = strip l))" .
    moreover from x have "\<exists>l. x = strip l"
      by (rule prompt_plain_result)
    ultimately show ?thesis
      by auto
  qed
qed

lemma gather_inputs_name_result:
  assumes "gather_inputs w = (Inr i, w')"
  shows "\<exists>l. name i = strip l \<and> strip l \<noteq> []"
proof -
  from assms obtain v where
    "io_bind (io_bind (prompt (lit ''Project name (e.g., seismic-analysis)'') []) name_loop)
       (\<lambda>name.
     io_bind (prompt (lit ''One-line description'') (lit ''A spec-driven scientific project''))
       (\<lambda>description.
     io_bind (prompt_choice (lit ''Project type:'')
                [lit ''Data pipeline'', lit ''Analysis tool'', lit ''Algorithm implementation'',
                 lit ''General''])
       (\<lambda>project_type.
     io_bind (prompt_choice (lit ''Primary AI coding assistant:'')
                [lit ''Claude Code'', lit ''Cursor'', lit ''GitHub Copilot'', lit ''Other/None''])
       (\<lambda>ai_tool.
     io_return \<lparr>name = name, description = description, project_type = project_type,
                ai_tool = ai_tool\<rparr>)))) v = (Inr i, w')"
    unfolding gather_inputs_def by (rule io_seq_InrD)
  then obtain m v1 where m: "io_bind (prompt (lit ''Project name (e.g., seismic-analysis)'') []) name_loop v = (Inr m, v1)"
    and rest: "io_bind (prompt (lit ''One-line description'') (lit ''A spec-driven scientific project''))
       (\<lambda>description.
     io_bind (prompt_choice (lit ''Project type:'')
                [lit ''Data pipeline'', lit ''Analysis tool'', lit ''Algorithm implementation'',
                 lit ''General''])
       (\<lambda>project_type.
     io_bind (prompt_choice (lit ''Primary AI coding assistant:'')
                [lit ''Claude Code'', lit ''Cursor'', lit ''GitHub Copilot'', lit ''Other/None''])
       (\<lambda>ai_tool.
     io_return \<lparr>name = m, description = description, project_type = project_type,
                ai_tool = ai_tool\<rparr>))) v1 = (Inr i, w')"
    by (rule io_bind_InrD)
  from rest have "name i = m"
    by (auto simp: io_return_def elim!: io_bind_InrD)
  moreover from m obtain x va where "prompt (lit ''Project name (e.g., seismic-analysis)'') [] v = (Inr x, va)"
    and "name_loop x va = (Inr m, v1)"
    by (rule io_bind_InrD)
  then have "m \<noteq> [] \<and> (\<exists>l. m = strip l)"
    using name_loop_result [of x va m v1] prompt_plain_result [of _ v x va] by auto
  ultimately show ?thesis
    by auto
qed

lemma strip_examples:
  "strip (lit ''   '') = []"
  "strip (lit '' seismic-analysis '') = lit ''seismic-analysis''"
  "strip (lit '' Detect quakes '') = lit ''Detect quakes''"
  "strip [] = []"
  by (simp_all add: strip_def lit_def isspace_def)

lemma py_int_examples2:
  "py_int (strip (lit ''3'')) = Some 3"
  "py_int (strip (lit ''1'')) = Some 1"
  by (simp_all add: py_int_def strip_def lit_def isspace_def int_space_def decimal_def
      decimal_zeros_def int_max_str_digits_def)

subsection \<open>Sections of the templates\<close>

lemma starts_with_prefix: "starts_with xs ys \<longleftrightarrow> prefix xs ys"
  by (induction xs ys rule: starts_with.induct) simp_all

lemma contains_sublist: "contains xs ys \<longleftrightarrow> sublist xs ys"
  by (induction ys) (simp_all add: starts_with_prefix sublist_Cons_right)

lemma sublist_across:
  assumes "sublist xs (a @ c # b)" and "c \<notin> set xs"
  shows "sublist xs a \<or> sublist xs b"
proof -
  have pre: "zs = [] \<or> c \<in> set zs" if "prefix zs (c # b)" for zs
    using that by (cases zs) auto
  from assms(1) consider "sublist xs a" | "sublist xs (c # b)"
    | xs1 xs2 where "xs = xs1 @ xs2" "suffix xs1 a" "prefix xs2 (c # b)"
    unfolding sublist_append by blast
  then show ?thesis
  proof cases
    case 1
    then show ?thesis by simp
  next
    case 2
    then have "prefix xs (c # b) \<or> sublist xs b"
      by (simp add: sublist_Cons_right)
    then show ?thesis
    proof
      assume "prefix xs (c # b)"
      then have "xs = [] \<or> c \<in> set xs"
        by (rule pre)
      with assms(2) show ?thesis
        by auto
    next
      assume "sublist xs b"
      then show ?thesis by simp
    qed
  next
    case 3
    from 3(3) have "xs2 = [] \<or> c \<in> set xs2"
      by (rule pre)
    with 3(1) assms(2) have "xs = xs1"
      by auto
    with 3(2) have "sublist xs a"
      by (simp add: suffix_imp_sublist)
    then show ?thesis by simp
  qed
qed

lemma sublist_unlines_iff:
  assumes "0xA \<notin> set xs" and "xs \<noteq> []"
  shows "sublist xs (unlines ls) \<longleftrightarrow> (\<exists>l \<in> set ls. sublist xs l)"
proof
  assume "\<exists>l \<in> set ls. sublist xs l"
  then show "sublist xs (unlines ls)"
    by (auto intro: sublist_unlines)
next
  assume "sublist xs (unlines ls)"
  then show "\<exists>l \<in> set ls. sublist xs l"
  proof (induction ls)
    case Nil
    with assms(2) show ?case
      by (simp add: unlines_Nil)
  next
    case (Cons l ls)
    then have "sublist xs (l @ 0xA # unlines ls)"
      by (simp add: unlines_Cons)
    with assms(1) have "sublist xs l \<or> sublist xs (unlines ls)"
      by (rule sublist_across [rotated])
    with Cons.IH show ?case
      by auto
  qed
qed

lemma split_on_nonempty: "split_on sep s \<noteq> []"
  by (induction s) (auto split: list.splits)

lemma split_on_append:
  "split_on sep (a @ sep # b) = split_on sep a @ split_on sep b"
proof (induction a)
  case Nil
  then show ?case by simp
next
  case (Cons c a)
  obtain x xs where "split_on sep a = x # xs"
    using split_on_nonempty [of sep a] by (cases "split_on sep a") auto
  with Cons show ?case
    by simp
qed

lemma line_of_unlines:
  assumes "l \<in> set ls" and "0xA \<notin> set l"
  shows "l \<in> set (split_on 0xA (unlines ls))"
  using assms(1)
proof (induction ls)
  case Nil
  then show ?case by simp
next
  case (Cons k ls)
  have "split_on 0xA (unlines (k # ls)) = split_on 0xA k @ split_on 0xA (unlines ls)"
    by (simp add: unlines_Cons split_on_append)
  moreover have "split_on 0xA l = [l]"
    using assms(2) by (rule split_on_no_sep)
  ultimately show ?case
    using Cons by auto
qed

lemma has_change_record_unlines:
  "lit ''## Change Record'' \<in> set ls \<Longrightarrow> has_change_record (unlines ls)"
  unfolding has_change_record_def contains_sublist
  by (rule sublist_unlines [where l = "lit ''## Change Record''"]) simp_all

lemma has_status_line_unlines:
  assumes "l \<in> set ls" and "0xA \<notin> set l"
    and "starts_with (lit ''**Status**: '') l" and "l \<noteq> lit ''**Status**: ''"
  shows "has_status_line (unlines ls)"
proof -
  from assms(1,2) have "l \<in> set (split_on 0xA (unlines ls))"
    by (rule line_of_unlines)
  with assms(3,4) show ?thesis
    unfolding has_status_line_def list_ex_iff by blast
qed

lemma status_lines:
  "0xA \<notin> set (lit ''**Status**: Draft'')"
  "starts_with (lit ''**Status**: '') (lit ''**Status**: Draft'')"
  "0xA \<notin> set (lit ''**Status**: Template'')"
  "starts_with (lit ''**Status**: '') (lit ''**Status**: Template'')"
  by (simp_all add: lit_def)

lemma template_sections:
  "has_change_record SPEC_FORMAT"
  "has_change_record (overview_template n d c)" "has_status_line (overview_template n d c)"
  "has_change_record FUNCTIONAL_REQUIREMENTS" "has_status_line FUNCTIONAL_REQUIREMENTS"
  "has_change_record ADR_TEMPLATE" "has_status_line ADR_TEMPLATE"
  "has_change_record DATA_FLOW_TEMPLATE" "has_status_line DATA_FLOW_TEMPLATE"
  "has_change_record ALGORITHM_SPEC_TEMPLATE" "has_status_line ALGORITHM_SPEC_TEMPLATE"
  "has_change_record VALIDATION_SPEC_TEMPLATE" "has_status_line VALIDATION_SPEC_TEMPLATE"
proof -
  show "has_change_record SPEC_FORMAT"
    unfolding SPEC_FORMAT_def by (rule has_change_record_unlines) simp
  show "has_change_record (overview_template n d c)"
    unfolding overview_template_def by (rule has_change_record_unlines) simp
  show "has_status_line (overview_template n d c)"
    unfolding overview_template_def
    by (rule has_status_line_unlines [where l = "lit ''**Status**: Draft''"])
       (simp_all add: status_lines)
  show "has_change_record FUNCTIONAL_REQUIREMENTS"
    unfolding FUNCTIONAL_REQUIREMENTS_def by (rule has_change_record_unlines) simp
  show "has_status_line FUNCTIONAL_REQUIREMENTS"
    unfolding FUNCTIONAL_REQUIREMENTS_def
    by (rule has_status_line_unlines [where l = "lit ''**Status**: Draft''"])
       (simp_all add: status_lines)
  show "has_change_record ADR_TEMPLATE"
    unfolding ADR_TEMPLATE_def by (rule has_change_record_unlines) simp
  show "has_status_line ADR_TEMPLATE"
    unfolding ADR_TEMPLATE_def
    by (rule has_status_line_unlines [where l = "lit ''**Status**: Template''"])
       (simp_all add: status_lines)
  show "has_change_record DATA_FLOW_TEMPLATE"
    unfolding DATA_FLOW_TEMPLATE_def by (rule has_change_record_unlines) simp
  show "has_status_line DATA_FLOW_TEMPLATE"
    unfolding DATA_FLOW_TEMPLATE_def
    by (rule has_status_line_unlines [where l = "lit ''**Status**: Draft''"])
       (simp_all add: status_lines)
  show "has_change_record ALGORITHM_SPEC_TEMPLATE"
    unfolding ALGORITHM_SPEC_TEMPLATE_def by (rule has_change_record_unlines) simp
  show "has_status_line ALGORITHM_SPEC_TEMPLATE"
    unfolding ALGORITHM_SPEC_TEMPLATE_def
    by (rule has_status_line_unlines [where l = "lit ''**Status**: Draft''"])
       (simp_all add: status_lines)
  show "has_change_record VALIDATION_SPEC_TEMPLATE"
    unfolding VALIDATION_SPEC_TEMPLATE_def by (rule has_change_record_unlines) simp
  show "has_status_line VALIDATION_SPEC_TEMPLATE"
    unfolding VALIDATION_SPEC_TEMPLATE_def
    by (rule has_status_line_unlines [where l = "lit ''**Status**: Draft''"])
       (simp_all add: status_lines)
qed

lemma readme_plain:
  "\<not> has_change_record (readme_template (lit ''seismic-analysis'') (lit ''Detect quakes''))"
  unfolding readme_template_def has_change_record_def contains_sublist
  by (subst sublist_unlines_iff) (simp_all add: contains_sublist [symmetric] lit_def)

subsection \<open>The date\<close>

lemma str_of_nat_digits: "c \<in> set (str_of_nat n) \<Longrightarrow> 0x30 \<le> c \<and> c \<le> 0x39"
proof (induction n rule: str_of_nat.induct)
  case (1 n)
  show ?case
  proof (cases "n < 10")
    case True
    with "1.prems" show ?thesis
      by (simp add: str_of_nat.simps [of n])
  next
    case False
    with "1.prems" have "c \<in> set (str_of_nat (n div 10)) \<or> c = 0x30 + n mod 10"
      by (auto simp: str_of_nat.simps [of n])
    then show ?thesis
    proof
      assume "c \<in> set (str_of_nat (n div 10))"
      with False show ?thesis
        by (intro "1.IH") simp_all
    next
      assume "c = 0x30 + n mod 10"
      moreover have "n mod 10 < 10"
        by simp
      ultimately show ?thesis
        by linarith
    qed
  qed
qed

lemma str_of_nat_length:
  "n < 10 \<Longrightarrow> length (str_of_nat n) = 1"
  "10 \<le> n \<Longrightarrow> n < 100 \<Longrightarrow> length (str_of_nat n) = 2"
  "100 \<le> n \<Longrightarrow> n < 1000 \<Longrightarrow> length (str_of_nat n) = 3"
  "1000 \<le> n \<Longrightarrow> n < 10000 \<Longrightarrow> length (str_of_nat n) = 4"
proof -
  show 1: "length (str_of_nat n) = 1" if "n < 10" for n
    using that by (simp add: str_of_nat.simps [of n])
  show 2: "length (str_of_nat n) = 2" if "10 \<le> n" "n < 100" for n
  proof -
    from that have "n div 10 < 10"
      by simp
    with that show ?thesis
      by (simp add: str_of_nat.simps [of n] 1)
  qed
  show 3: "length (str_of_nat n) = 3" if "100 \<le> n" "n < 1000" for n
  proof -
    from that have "10 \<le> n div 10" "n div 10 < 100"
      by simp_all
    with that show ?thesis
      by (simp add: str_of_nat.simps [of n] 2)
  qed
  show "length (str_of_nat n) = 4" if "1000 \<le> n" "n < 10000" for n
  proof -
    from that have "100 \<le> n div 10" "n div 10 < 1000"
      by simp_all
    with that show ?thesis
      by (simp add: str_of_nat.simps [of n] 3)
  qed
qed

lemma str_of_nat_le2: "n < 100 \<Longrightarrow> length (str_of_nat n) \<le> 2"
  using str_of_nat_length(1,2) [of n] by (cases "n < 10") simp_all

lemma str_of_nat_le4: "n < 10000 \<Longrightarrow> length (str_of_nat n) \<le> 4"
  using str_of_nat_le2 [of n] str_of_nat_length(3,4) [of n]
  by (cases "n < 100"; cases "n < 1000") simp_all

lemma zfill_length: "length s \<le> w \<Longrightarrow> length (zfill w s) = w"
  by (simp add: zfill_def)

lemma zfill_digits:
  "(\<And>c. c \<in> set s \<Longrightarrow> 0x30 \<le> c \<and> c \<le> 0x39) \<Longrightarrow> c \<in> set (zfill w s)
   \<Longrightarrow> 0x30 \<le> c \<and> c \<le> (0x39::nat)"
  by (auto simp: zfill_def)

lemma isoformat_shape:
  assumes "valid_date c"
  shows "\<exists>y m d. isoformat c = y @ [0x2D] @ m @ [0x2D] @ d
           \<and> length y = 4 \<and> length m = 2 \<and> length d = 2
           \<and> (\<forall>x \<in> set (y @ m @ d). 0x30 \<le> x \<and> x \<le> 0x39)"
proof -
  let ?y = "zfill 4 (str_of_nat (year c))"
  let ?m = "zfill 2 (str_of_nat (month c))"
  let ?d = "zfill 2 (str_of_nat (day c))"
  from assms have "year c < 10000" "month c < 100" "day c < 100"
    by (simp_all add: valid_date_def)
  then have "length (str_of_nat (year c)) \<le> 4" "length (str_of_nat (month c)) \<le> 2"
    "length (str_of_nat (day c)) \<le> 2"
    by (simp_all add: str_of_nat_le4 str_of_nat_le2)
  then have "length ?y = 4" "length ?m = 2" "length ?d = 2"
    by (simp_all add: zfill_length)
  moreover have "\<forall>x \<in> set (?y @ ?m @ ?d). 0x30 \<le> x \<and> x \<le> 0x39"
    by (auto dest!: zfill_digits [rotated] dest: str_of_nat_digits)
  ultimately show ?thesis
    unfolding isoformat_def by blast
qed

section \<open>The claims\<close>

text \<open>
  Claim C1. For every project type and every AI tool (the sixteen valid combinations among
  them), a run of \<open>create_project\<close> in a well-formed file system where nothing stands at
  the root, and no regular file stands on the way to it, returns the root, and the set of
  files it writes is exactly the base set, plus \<^verbatim>\<open>specs/02-architecture/data-flow.md\<close> iff
  the project type is "Data pipeline", plus the algorithm template and the validation plan
  iff it is "Algorithm implementation", plus the one file of the AI tool ("Claude Code",
  "Cursor", "GitHub Copilot") and none for any other tool. No file is missing, none is
  extra, and none is written twice.
\<close>

theorem create_project_file_set:
  assumes "wf_world w"
    and "\<not> path_exists w (Path (name i))"
    and "unobstructed w (Path (name i))"
  shows "\<exists>w'. create_project i w = (Inr (Path (name i)), w')
           \<and> set (written (new_events w w'))
               = (\<lambda>rel. Path (name i) @ rel) ` expected_files (project_type i) (ai_tool i)
           \<and> distinct (written (new_events w w'))"
proof -
  let ?root = "Path (name i)"
  let ?evs = "map Mkdir (missing w ?root) @ project_events i (clock w) ?root"
  have run: "create_project i w = (Inr ?root, replay ?evs w)"
    using assms by (rule create_project_fresh) simp
  have "set (written ?evs) = (\<lambda>rel. ?root @ rel) ` expected_files (project_type i) (ai_tool i)"
    by (auto simp: project_events_def expected_files_def base_files_def)
  moreover have "distinct (written ?evs)"
    by (simp add: project_events_def)
  ultimately show ?thesis
    using run by simp
qed

theorem create_project_file_set_witness:
  "wf_world empty_world
   \<and> \<not> path_exists empty_world (Path (name seismic))
   \<and> unobstructed empty_world (Path (name seismic))
   \<and> (\<exists>w'. create_project seismic empty_world = (Inr (Path (name seismic)), w')
           \<and> set (written (new_events empty_world w'))
               = (\<lambda>rel. Path (name seismic) @ rel)
                 ` expected_files (project_type seismic) (ai_tool seismic)
           \<and> distinct (written (new_events empty_world w')))"
  using create_project_file_set [OF wf_empty_world seismic_fresh unobstructed_empty_world]
    wf_empty_world seismic_fresh unobstructed_empty_world
  by blast

text \<open>
  Claim C2. If an entry named \<open>name i\<close> exists when \<open>create_project\<close> is called, the call
  prints the "already exists" message and raises \<^verbatim>\<open>SystemExit(1)\<close>, and the world it leaves
  differs from the one it found in the printed text only: no directory is made and no file
  is written. A second call with the same inputs, after a first call that returned or
  that failed this way, always fails this way, and makes and writes nothing.
\<close>

theorem create_project_existing:
  "(path_exists w (Path (name i)) \<longrightarrow>
      create_project i w
      = (Inl (SystemExit 1),
         w\<lparr>stdout := stdout w @ [0xA] @ lit ''Error: Directory '' @ [0x27] @ name i @ [0x27]
                       @ lit '' already exists.'' @ [0xA]\<rparr>))
   \<and> (wf_world w \<and> create_project i w = (r, w1) \<and> r \<noteq> Inl NotADirectoryError \<longrightarrow>
        create_project i w1
        = (Inl (SystemExit 1),
           w1\<lparr>stdout := stdout w1 @ [0xA] @ lit ''Error: Directory '' @ [0x27] @ name i @ [0x27]
                          @ lit '' already exists.'' @ [0xA]\<rparr>)
        \<and> new_events w1 (snd (create_project i w1)) = []
        \<and> fs_dirs (snd (create_project i w1)) = fs_dirs w1
        \<and> fs_files (snd (create_project i w1)) = fs_files w1)"
proof (rule conjI; rule impI)
  assume "path_exists w (Path (name i))"
  then show "create_project i w
      = (Inl (SystemExit 1),
         w\<lparr>stdout := stdout w @ [0xA] @ lit ''Error: Directory '' @ [0x27] @ name i @ [0x27]
                       @ lit '' already exists.'' @ [0xA]\<rparr>)"
    by (rule create_project_exists)
next
  assume a: "wf_world w \<and> create_project i w = (r, w1) \<and> r \<noteq> Inl NotADirectoryError"
  then have "wf_world w"
    by simp
  then have "path_exists w1 (Path (name i))"
  proof (cases rule: create_project_outcome [where i = i])
    case exists
    with a show ?thesis
      by (auto simp: path_exists_def is_dir_def is_file_def)
  next
    case blocked
    with a show ?thesis
      by auto
  next
    case fresh
    from fresh(1) have "Path (name i) \<in> set (missing w (Path (name i)))"
      by (simp add: set_missing)
    with fresh(3) a show ?thesis
      by auto
  qed
  then have run: "create_project i w1
        = (Inl (SystemExit 1),
           w1\<lparr>stdout := stdout w1 @ [0xA] @ lit ''Error: Directory '' @ [0x27] @ name i @ [0x27]
                          @ lit '' already exists.'' @ [0xA]\<rparr>)"
    by (rule create_project_exists)
  then show "create_project i w1
        = (Inl (SystemExit 1),
           w1\<lparr>stdout := stdout w1 @ [0xA] @ lit ''Error: Directory '' @ [0x27] @ name i @ [0x27]
                          @ lit '' already exists.'' @ [0xA]\<rparr>)
        \<and> new_events w1 (snd (create_project i w1)) = []
        \<and> fs_dirs (snd (create_project i w1)) = fs_dirs w1
        \<and> fs_files (snd (create_project i w1)) = fs_files w1"
    by (simp add: new_events_def)
qed

theorem create_project_existing_witness:
  "wf_world empty_world
   \<and> create_project seismic empty_world
       = (Inr [lit ''seismic-analysis''], snd (create_project seismic empty_world))
   \<and> path_exists (snd (create_project seismic empty_world)) (Path (name seismic))
   \<and> fst (create_project seismic (snd (create_project seismic empty_world))) = Inl (SystemExit 1)
   \<and> new_events (snd (create_project seismic empty_world))
        (snd (create_project seismic (snd (create_project seismic empty_world)))) = []"
proof -
  let ?w' = "snd (create_project seismic empty_world)"
  have run: "create_project seismic empty_world = (Inr [lit ''seismic-analysis''], ?w')"
    by (simp add: seismic_run)
  have 1: "path_exists ?w' (Path (name seismic))"
    by (simp add: seismic_run seismic_root)
  have "wf_world empty_world
        \<and> create_project seismic empty_world = (Inr [lit ''seismic-analysis''], ?w')
        \<and> Inr [lit ''seismic-analysis''] \<noteq> (Inl NotADirectoryError :: exn + path)"
    by (intro conjI wf_empty_world run) simp
  with create_project_existing [of empty_world seismic "Inr [lit ''seismic-analysis'']" ?w']
  have again: "create_project seismic ?w'
      = (Inl (SystemExit 1),
         ?w'\<lparr>stdout := stdout ?w' @ [0xA] @ lit ''Error: Directory '' @ [0x27] @ name seismic
                        @ [0x27] @ lit '' already exists.'' @ [0xA]\<rparr>)"
    and 3: "new_events ?w' (snd (create_project seismic ?w')) = []"
    by blast+
  from again have 2: "fst (create_project seismic ?w') = Inl (SystemExit 1)"
    by (simp only: fst_conv)
  from wf_empty_world run 1 2 3 show ?thesis
    by (intro conjI)
qed

text \<open>
  Claim C3 (amended). For the inputs of the end-to-end scenario (name "seismic-analysis",
  description "Detect quakes", project type "Algorithm implementation", AI tool "Claude
  Code"), a run in a well-formed file system with no entry of that name makes eleven
  directories (the root, \<^verbatim>\<open>specs\<close>, the six base directories, the two algorithm-specific
  ones and \<^verbatim>\<open>.claude\<close>: ten without \<^verbatim>\<open>.claude\<close>) and writes eleven files: the nine named
  files and the two \<^verbatim>\<open>.gitkeep\<close> markers. As stated, with seven directories and ten files,
  the claim fails in the empty file system.
\<close>

theorem seismic_scenario:
  assumes "wf_world w" and "\<not> path_exists w [lit ''seismic-analysis'']"
  shows "\<exists>w'. create_project seismic w = (Inr [lit ''seismic-analysis''], w')
     \<and> made (new_events w w')
         = map (\<lambda>rel. [lit ''seismic-analysis''] @ rel)
             [[],
              [lit ''specs''],
              [lit ''specs'', lit ''01-requirements''],
              [lit ''specs'', lit ''02-architecture''],
              [lit ''specs'', lit ''03-implementation''],
              [lit ''specs'', lit ''99-decisions''],
              [lit ''src''],
              [lit ''tests''],
              [lit ''specs'', lit ''04-algorithms''],
              [lit ''specs'', lit ''05-validation''],
              [lit ''.claude'']]
     \<and> written (new_events w w')
         = map (\<lambda>rel. [lit ''seismic-analysis''] @ rel)
             [[lit ''specs'', lit ''spec-format.md''],
              [lit ''specs'', lit ''00-overview.md''],
              [lit ''specs'', lit ''01-requirements'', lit ''functional.md''],
              [lit ''specs'', lit ''99-decisions'', lit ''adr-000-template.md''],
              [lit ''specs'', lit ''04-algorithms'', lit ''algorithm-template.md''],
              [lit ''specs'', lit ''05-validation'', lit ''validation-plan.md''],
              [lit ''README.md''],
              [lit ''CONTRIBUTING.md''],
              [lit ''.claude'', lit ''CLAUDE.md''],
              [lit ''src'', lit ''.gitkeep''],
              [lit ''tests'', lit ''.gitkeep'']]
     \<and> length (made (new_events w w')) = 11
     \<and> length (written (new_events w w')) = 11"
proof -
  let ?root = "[lit ''seismic-analysis'']"
  have "create_project seismic w
        = (Inr ?root, replay (map Mkdir (missing w ?root) @ project_events seismic (clock w) ?root) w)"
    using assms unobstructed_single [OF assms]
    by (intro create_project_fresh) (simp_all add: seismic_root)
  moreover have "missing w ?root = [?root]"
    using assms(2) by (rule missing_single)
  ultimately show ?thesis
    by (simp add: project_events_def seismic_def)
qed

theorem seismic_scenario_witness:
  "wf_world empty_world \<and> \<not> path_exists empty_world [lit ''seismic-analysis'']
   \<and> (\<exists>w'. create_project seismic empty_world = (Inr [lit ''seismic-analysis''], w')
         \<and> length (made (new_events empty_world w')) = 11
         \<and> length (written (new_events empty_world w')) = 11)"
proof -
  have fresh: "\<not> path_exists empty_world [lit ''seismic-analysis'']"
    using seismic_fresh by (simp add: seismic_root)
  from seismic_scenario [OF wf_empty_world fresh] wf_empty_world fresh show ?thesis
    by blast
qed

theorem seismic_scenario_counts_counterexample:
  "\<not> (length (filter (\<lambda>p. p \<noteq> [lit ''seismic-analysis'', lit ''.claude''])
                 (made (new_events empty_world (snd (create_project seismic empty_world))))) = 7
      \<and> length (written (new_events empty_world (snd (create_project seismic empty_world)))) = 10)"
proof -
  let ?root = "[lit ''seismic-analysis'']"
  have fresh: "\<not> path_exists empty_world ?root"
    using seismic_fresh by (simp add: seismic_root)
  have "create_project seismic empty_world
        = (Inr ?root, replay (map Mkdir (missing empty_world ?root)
                              @ project_events seismic (clock empty_world) ?root) empty_world)"
    using wf_empty_world fresh unobstructed_empty_world
    by (rule create_project_fresh) (simp add: seismic_root)
  moreover have "missing empty_world ?root = [?root]"
    using fresh by (rule missing_single)
  ultimately show ?thesis
    by (simp add: project_events_def seismic_def)
qed

text \<open>
  Claim C4. For every list of options and every sequence of responses on standard input,
  \<open>prompt_choice\<close> selects nothing on a response that is not a number or is out of range:
  after each such response it prints the guidance message and prompts again. It returns at
  the first response that is an integer \<open>i\<close> from 1 to the number of options, with the
  option at 1-based index \<open>i\<close>; when the input ends before such a response, it ends with
  \<^verbatim>\<open>EOFError\<close> and has selected nothing. In particular the responses "abc", "0", "2"
  select the second option.
\<close>

theorem prompt_choice_selects:
  "(stdin w = bad @ line # rest \<and> (\<forall>b \<in> set bad. \<not> accepts (length options) b)
      \<and> py_int (strip line) = Some i \<and> 1 \<le> i \<and> i \<le> int (length options)
    \<longrightarrow> prompt_choice question options w
        = (Inr (options ! nat (i - 1)),
           w\<lparr>stdin := rest,
              stdout := stdout w @ menu question options
                @ concat (map (\<lambda>b. lit ''Enter number: '' @ guidance options) bad)
                @ lit ''Enter number: ''\<rparr>))
   \<and> ((\<forall>b \<in> set (stdin w). \<not> accepts (length options) b)
    \<longrightarrow> prompt_choice question options w
        = (Inl EOFError,
           w\<lparr>stdin := [],
              stdout := stdout w @ menu question options
                @ concat (map (\<lambda>b. lit ''Enter number: '' @ guidance options) (stdin w))
                @ lit ''Enter number: ''\<rparr>))
   \<and> (2 \<le> length options
    \<longrightarrow> fst (prompt_choice question options (w\<lparr>stdin := [lit ''abc'', lit ''0'', lit ''2'']\<rparr>))
        = Inr (options ! 1))"
proof (intro conjI impI)
  assume "stdin w = bad @ line # rest \<and> (\<forall>b \<in> set bad. \<not> accepts (length options) b)
      \<and> py_int (strip line) = Some i \<and> 1 \<le> i \<and> i \<le> int (length options)"
  then show "prompt_choice question options w
        = (Inr (options ! nat (i - 1)),
           w\<lparr>stdin := rest,
              stdout := stdout w @ menu question options
                @ concat (map (\<lambda>b. lit ''Enter number: '' @ guidance options) bad)
                @ lit ''Enter number: ''\<rparr>)"
    by (intro prompt_choice_accept [where line = line]) simp_all
next
  assume "\<forall>b \<in> set (stdin w). \<not> accepts (length options) b"
  then show "prompt_choice question options w
        = (Inl EOFError,
           w\<lparr>stdin := [],
              stdout := stdout w @ menu question options
                @ concat (map (\<lambda>b. lit ''Enter number: '' @ guidance options) (stdin w))
                @ lit ''Enter number: ''\<rparr>)"
    by (rule prompt_choice_eof)
next
  assume len: "2 \<le> length options"
  let ?w0 = "w\<lparr>stdin := [lit ''abc'', lit ''0'', lit ''2'']\<rparr>"
  have "prompt_choice question options ?w0
        = (Inr (options ! nat (2 - 1)),
           ?w0\<lparr>stdin := [],
              stdout := stdout ?w0 @ menu question options
                @ concat (map (\<lambda>b. lit ''Enter number: '' @ guidance options)
                              [lit ''abc'', lit ''0''])
                @ lit ''Enter number: ''\<rparr>)"
    using len
    by (intro prompt_choice_accept [where line = "lit ''2''"])
       (simp_all add: accepts_def py_int_examples)
  then show "fst (prompt_choice question options ?w0) = Inr (options ! 1)"
    by simp
qed

theorem prompt_choice_selects_witness:
  "\<not> accepts 4 (lit ''abc'') \<and> \<not> accepts 4 (lit ''0'')
   \<and> py_int (strip (lit ''2'')) = Some 2
   \<and> prompt_choice (lit ''Project type:'')
        [lit ''Data pipeline'', lit ''Analysis tool'', lit ''Algorithm implementation'',
         lit ''General'']
        (empty_world\<lparr>stdin := [lit ''abc'', lit ''0'', lit ''2'', lit ''4'']\<rparr>)
      = (Inr (lit ''Analysis tool''),
         empty_world\<lparr>stdin := [lit ''4''],
           stdout := menu (lit ''Project type:'')
               [lit ''Data pipeline'', lit ''Analysis tool'', lit ''Algorithm implementation'',
                lit ''General'']
             @ lit ''Enter number: '' @ lit ''Please enter a number between 1 and 4'' @ [0xA]
             @ lit ''Enter number: '' @ lit ''Please enter a number between 1 and 4'' @ [0xA]
             @ lit ''Enter number: ''\<rparr>)
   \<and> fst (prompt_choice (lit ''Project type:'')
        [lit ''Data pipeline'', lit ''Analysis tool'', lit ''Algorithm implementation'',
         lit ''General'']
        (empty_world\<lparr>stdin := [lit ''abc'', lit ''0'']\<rparr>)) = Inl EOFError"
proof -
  let ?opts = "[lit ''Data pipeline'', lit ''Analysis tool'', lit ''Algorithm implementation'',
                lit ''General'']"
  let ?q = "lit ''Project type:''"
  let ?w = "empty_world\<lparr>stdin := [lit ''abc'', lit ''0'', lit ''2'', lit ''4'']\<rparr>"
  let ?v = "empty_world\<lparr>stdin := [lit ''abc'', lit ''0'']\<rparr>"
  have len: "length ?opts = 4"
    by simp
  have bad: "\<not> accepts 4 (lit ''abc'')" "\<not> accepts 4 (lit ''0'')"
    by (simp_all add: accepts_def py_int_examples)
  have g: "guidance ?opts = lit ''Please enter a number between 1 and 4'' @ [0xA]"
    unfolding guidance_def len by (simp add: str_of_nat.simps lit_def)
  have "stdin ?w = [lit ''abc'', lit ''0''] @ lit ''2'' # [lit ''4'']
        \<and> (\<forall>b \<in> set [lit ''abc'', lit ''0'']. \<not> accepts (length ?opts) b)
        \<and> py_int (strip (lit ''2'')) = Some 2 \<and> (1::int) \<le> 2 \<and> 2 \<le> int (length ?opts)"
    unfolding len using bad by (simp add: py_int_examples)
  with prompt_choice_selects
      [of ?w "[lit ''abc'', lit ''0'']" "lit ''2''" "[lit ''4'']" ?opts 2 ?q]
  have "prompt_choice ?q ?opts ?w
        = (Inr (?opts ! nat (2 - 1)),
           ?w\<lparr>stdin := [lit ''4''],
              stdout := stdout ?w @ menu ?q ?opts
                @ concat (map (\<lambda>b. lit ''Enter number: '' @ guidance ?opts) [lit ''abc'', lit ''0''])
                @ lit ''Enter number: ''\<rparr>)"
    by blast
  then have 1: "prompt_choice ?q ?opts ?w
      = (Inr (lit ''Analysis tool''),
         empty_world\<lparr>stdin := [lit ''4''],
           stdout := menu ?q ?opts
             @ lit ''Enter number: '' @ lit ''Please enter a number between 1 and 4'' @ [0xA]
             @ lit ''Enter number: '' @ lit ''Please enter a number between 1 and 4'' @ [0xA]
             @ lit ''Enter number: ''\<rparr>)"
    unfolding g by (simp add: empty_world_def)
  have "\<forall>b \<in> set (stdin ?v). \<not> accepts (length ?opts) b"
    unfolding len using bad by simp
  with prompt_choice_selects [of ?v _ _ _ ?opts _ ?q]
  have "prompt_choice ?q ?opts ?v
        = (Inl EOFError,
           ?v\<lparr>stdin := [],
              stdout := stdout ?v @ menu ?q ?opts
                @ concat (map (\<lambda>b. lit ''Enter number: '' @ guidance ?opts) (stdin ?v))
                @ lit ''Enter number: ''\<rparr>)"
    by blast
  then have 2: "fst (prompt_choice ?q ?opts ?v) = Inl EOFError"
    by (simp only: fst_conv)
  from bad 1 2 show ?thesis
    by (simp add: py_int_examples)
qed

text \<open>
  Claim C5 (amended). In a run of \<open>gather_inputs\<close> (some blank responses to the name
  prompt, a name, the response \<open>d\<close> to the description prompt, then an accepted choice of
  project type and of AI tool, each after any number of rejected ones), the description is
  "A spec-driven scientific project" when \<open>d\<close> is empty or consists of whitespace only,
  and is \<open>d\<close> without its leading and trailing whitespace otherwise. As stated the claim
  fails: the response " Detect quakes " is not empty, and the description is
  "Detect quakes", not the response.
\<close>

theorem gather_inputs_description:
  assumes "stdin w = blanks @ nm # d # tbad @ t # abad @ a # rest"
    and "\<forall>b \<in> set blanks. strip b = []" and "strip nm \<noteq> []"
    and "\<forall>b \<in> set tbad. \<not> accepts 4 b"
    and "py_int (strip t) = Some ti" "1 \<le> ti" "ti \<le> 4"
    and "\<forall>b \<in> set abad. \<not> accepts 4 b"
    and "py_int (strip a) = Some ai" "1 \<le> ai" "ai \<le> 4"
  shows "\<exists>i w'. gather_inputs w = (Inr i, w')
           \<and> description i = (if \<forall>c \<in> set d. isspace c
                               then lit ''A spec-driven scientific project'' else strip d)"
proof -
  from gather_inputs_run [OF assms] obtain w' where
    "gather_inputs w
      = (Inr \<lparr>name = strip nm,
              description = (if strip d \<noteq> [] then strip d
                             else lit ''A spec-driven scientific project''),
              project_type = [lit ''Data pipeline'', lit ''Analysis tool'',
                              lit ''Algorithm implementation'', lit ''General'']
                             ! nat (ti - 1),
              ai_tool = [lit ''Claude Code'', lit ''Cursor'', lit ''GitHub Copilot'',
                         lit ''Other/None''] ! nat (ai - 1)\<rparr>, w')"
    by blast
  then show ?thesis
    by (auto simp: strip_empty_iff [symmetric])
qed

theorem gather_inputs_description_witness:
  "strip (lit ''   '') = [] \<and> strip (lit '' seismic-analysis '') \<noteq> []
   \<and> \<not> accepts 4 (lit ''abc'') \<and> py_int (strip (lit ''3'')) = Some 3
   \<and> py_int (strip (lit ''1'')) = Some 1
   \<and> (\<exists>i w'. gather_inputs
                (empty_world\<lparr>stdin := [lit ''   '', lit '' seismic-analysis '', [], lit ''abc'',
                                        lit ''3'', lit ''1'']\<rparr>) = (Inr i, w')
          \<and> description i = lit ''A spec-driven scientific project'')"
proof -
  let ?w = "empty_world\<lparr>stdin := [lit ''   '', lit '' seismic-analysis '', [], lit ''abc'',
                                    lit ''3'', lit ''1'']\<rparr>"
  have bad: "\<not> accepts 4 (lit ''abc'')"
    by (simp add: accepts_def py_int_examples)
  have "\<exists>i w'. gather_inputs ?w = (Inr i, w')
           \<and> description i = (if \<forall>c \<in> set []. isspace c
                               then lit ''A spec-driven scientific project'' else strip [])"
    using bad
    by (intro gather_inputs_description
          [where blanks = "[lit ''   '']" and nm = "lit '' seismic-analysis ''"
             and tbad = "[lit ''abc'']" and t = "lit ''3''" and abad = "[]" and a = "lit ''1''"
             and rest = "[]" and ti = 3 and ai = 1])
       (simp_all add: strip_examples py_int_examples2)
  with bad show ?thesis
    by (simp add: strip_examples py_int_examples2)
qed

theorem gather_inputs_description_counterexample:
  "\<exists>i w'. gather_inputs
             (empty_world\<lparr>stdin := [lit ''seismic-analysis'', lit '' Detect quakes '', lit ''3'',
                                     lit ''1'']\<rparr>) = (Inr i, w')
     \<and> lit '' Detect quakes '' \<noteq> []
     \<and> description i \<noteq> lit '' Detect quakes ''"
proof -
  let ?w = "empty_world\<lparr>stdin := [lit ''seismic-analysis'', lit '' Detect quakes '', lit ''3'',
                                    lit ''1'']\<rparr>"
  have nm: "strip (lit ''seismic-analysis'') \<noteq> []"
    by (simp add: strip_def lit_def isspace_def)
  have "\<exists>w'. gather_inputs ?w
      = (Inr \<lparr>name = strip (lit ''seismic-analysis''),
              description = (if strip (lit '' Detect quakes '') \<noteq> [] then strip (lit '' Detect quakes '')
                             else lit ''A spec-driven scientific project''),
              project_type = [lit ''Data pipeline'', lit ''Analysis tool'',
                              lit ''Algorithm implementation'', lit ''General'']
                             ! nat (3 - 1),
              ai_tool = [lit ''Claude Code'', lit ''Cursor'', lit ''GitHub Copilot'',
                         lit ''Other/None''] ! nat (1 - 1)\<rparr>, w')
      \<and> stdin w' = []"
    using nm
    by (intro gather_inputs_run [where blanks = "[]" and tbad = "[]" and abad = "[]"
          and t = "lit ''3''" and a = "lit ''1''"])
       (simp_all add: py_int_examples2)
  then show ?thesis
    by (auto simp: strip_examples)
qed

text \<open>
  Claim C6. For every name and description, the text rendered by \<open>overview_template\<close> and the
  text rendered by \<open>readme_template\<close> each contain the name and the description as they
  are: the rendered text is some text, then the whole name (or description), character for
  character, then some text.
\<close>

theorem templates_contain_name_and_description:
  "sublist n (overview_template n d c)
   \<and> sublist d (overview_template n d c)
   \<and> sublist n (readme_template n d)
   \<and> sublist d (readme_template n d)"
proof (intro conjI)
  show "sublist n (overview_template n d c)"
    unfolding overview_template_def
    by (rule sublist_unlines [where l = "lit ''# '' @ n"]) simp_all
  show "sublist d (overview_template n d c)"
    unfolding overview_template_def
    by (rule sublist_unlines [where l = d]) simp_all
  show "sublist n (readme_template n d)"
    unfolding readme_template_def
    by (rule sublist_unlines [where l = "lit ''# '' @ n"]) simp_all
  show "sublist d (readme_template n d)"
    unfolding readme_template_def
    by (rule sublist_unlines [where l = d]) simp_all
qed

text \<open>
  Claim C8 (amended). For every name and description, every file \<open>create_project\<close> writes
  under \<^verbatim>\<open>specs/\<close> contains a "## Change Record" section, and each of them other than
  \<^verbatim>\<open>specs/spec-format.md\<close> has a line "**Status**: <value>". As stated, for every rendered
  file, the claim fails: the \<^verbatim>\<open>README.md\<close> of the end-to-end scenario holds no
  "## Change Record" anywhere.
\<close>

theorem spec_files_sections:
  assumes "wf_world w"
    and "\<not> path_exists w (Path (name i))"
    and "unobstructed w (Path (name i))"
  shows "\<exists>w'. create_project i w = (Inr (Path (name i)), w')
     \<and> (\<forall>p data. Write p data \<in> set (new_events w w')
                   \<and> prefix (Path (name i) @ [lit ''specs'']) p
           \<longrightarrow> has_change_record data
               \<and> (p \<noteq> Path (name i) @ [lit ''specs'', lit ''spec-format.md'']
                    \<longrightarrow> has_status_line data))"
proof -
  let ?root = "Path (name i)"
  let ?evs = "map Mkdir (missing w ?root) @ project_events i (clock w) ?root"
  have run: "create_project i w = (Inr ?root, replay ?evs w)"
    using assms by (rule create_project_fresh) simp
  have "has_change_record data
        \<and> (p \<noteq> ?root @ [lit ''specs'', lit ''spec-format.md''] \<longrightarrow> has_status_line data)"
    if "Write p data \<in> set ?evs" and "prefix (?root @ [lit ''specs'']) p" for p data
  proof -
    from that(1) have "Write p data \<in> set (project_events i (clock w) ?root)"
      by auto
    with that(2) show ?thesis
      by (auto simp: project_events_def template_sections split: if_splits)
  qed
  then have "\<forall>p data. Write p data \<in> set ?evs \<and> prefix (?root @ [lit ''specs'']) p
           \<longrightarrow> has_change_record data
               \<and> (p \<noteq> ?root @ [lit ''specs'', lit ''spec-format.md'']
                    \<longrightarrow> has_status_line data)"
    by blast
  then show ?thesis
    unfolding run by (simp only: new_events_replay prod.inject simp_thms ex_simps)
qed

theorem spec_files_sections_witness:
  "wf_world empty_world
   \<and> \<not> path_exists empty_world (Path (name seismic))
   \<and> unobstructed empty_world (Path (name seismic))
   \<and> (\<exists>w'. create_project seismic empty_world = (Inr (Path (name seismic)), w')
     \<and> (\<forall>p data. Write p data \<in> set (new_events empty_world w')
                   \<and> prefix (Path (name seismic) @ [lit ''specs'']) p
           \<longrightarrow> has_change_record data
               \<and> (p \<noteq> Path (name seismic) @ [lit ''specs'', lit ''spec-format.md'']
                    \<longrightarrow> has_status_line data)))"
  using spec_files_sections [OF wf_empty_world seismic_fresh unobstructed_empty_world]
    wf_empty_world seismic_fresh unobstructed_empty_world
  by blast

theorem rendered_files_sections_counterexample:
  "\<exists>p data. Write p data
              \<in> set (new_events empty_world (snd (create_project seismic empty_world)))
     \<and> \<not> has_change_record data"
proof -
  have "Write [lit ''seismic-analysis'', lit ''README.md'']
          (readme_template (lit ''seismic-analysis'') (lit ''Detect quakes''))
        \<in> set (new_events empty_world (snd (create_project seismic empty_world)))"
    unfolding seismic_run by (simp add: project_events_def seismic_def)
  with readme_plain show ?thesis
    by blast
qed

text \<open>
  Claim C9. \<open>prompt\<close> removes the whitespace at both ends of the response before it tests
  for emptiness: without a default it returns the stripped response, with a default it
  returns the default when the stripped response is empty. So \<open>gather_inputs\<close> asks again
  for the project name after every response that is empty or whitespace only, and takes
  the first other response, stripped; whenever it returns, the name is not empty and
  neither begins nor ends with a whitespace character.
\<close>

theorem gather_inputs_name:
  "(stdin w = l # ls \<longrightarrow>
      fst (prompt q [] w) = Inr (strip l)
      \<and> fst (prompt q (c # dflt) w) = Inr (if strip l \<noteq> [] then strip l else c # dflt))
   \<and> (stdin w = blanks @ nm # d # tbad @ t # abad @ a # rest
       \<and> (\<forall>b \<in> set blanks. \<forall>c \<in> set b. isspace c) \<and> \<not> (\<forall>c \<in> set nm. isspace c)
       \<and> (\<forall>b \<in> set tbad. \<not> accepts 4 b)
       \<and> py_int (strip t) = Some ti \<and> 1 \<le> ti \<and> ti \<le> 4
       \<and> (\<forall>b \<in> set abad. \<not> accepts 4 b)
       \<and> py_int (strip a) = Some ai \<and> 1 \<le> ai \<and> ai \<le> 4
      \<longrightarrow> (\<exists>i w'. gather_inputs w = (Inr i, w') \<and> name i = strip nm))
   \<and> (gather_inputs w = (Inr i, w') \<longrightarrow>
        name i \<noteq> [] \<and> \<not> isspace (hd (name i)) \<and> \<not> isspace (last (name i)))"
proof (intro conjI impI)
  assume "stdin w = l # ls"
  then show "fst (prompt q [] w) = Inr (strip l)"
    by (simp add: prompt_plain)
next
  assume "stdin w = l # ls"
  then show "fst (prompt q (c # dflt) w) = Inr (if strip l \<noteq> [] then strip l else c # dflt)"
    by (simp add: prompt_default)
next
  assume a: "stdin w = blanks @ nm # d # tbad @ t # abad @ a # rest
       \<and> (\<forall>b \<in> set blanks. \<forall>c \<in> set b. isspace c) \<and> \<not> (\<forall>c \<in> set nm. isspace c)
       \<and> (\<forall>b \<in> set tbad. \<not> accepts 4 b)
       \<and> py_int (strip t) = Some ti \<and> 1 \<le> ti \<and> ti \<le> 4
       \<and> (\<forall>b \<in> set abad. \<not> accepts 4 b)
       \<and> py_int (strip a) = Some ai \<and> 1 \<le> ai \<and> ai \<le> 4"
  then have "\<forall>b \<in> set blanks. strip b = []" "strip nm \<noteq> []"
    by (simp_all add: strip_empty_iff)
  with a have "\<exists>w'. gather_inputs w
           = (Inr \<lparr>name = strip nm,
                   description = (if strip d \<noteq> [] then strip d
                                  else lit ''A spec-driven scientific project''),
                   project_type = [lit ''Data pipeline'', lit ''Analysis tool'',
                                   lit ''Algorithm implementation'', lit ''General'']
                                  ! nat (ti - 1),
                   ai_tool = [lit ''Claude Code'', lit ''Cursor'', lit ''GitHub Copilot'',
                              lit ''Other/None''] ! nat (ai - 1)\<rparr>, w')
         \<and> stdin w' = rest"
    by (intro gather_inputs_run [where t = t and a = a and tbad = tbad and abad = abad
          and blanks = blanks]) simp_all
  then show "\<exists>i w'. gather_inputs w = (Inr i, w') \<and> name i = strip nm"
    by auto
next
  assume "gather_inputs w = (Inr i, w')"
  then obtain l where l: "name i = strip l" "strip l \<noteq> []"
    using gather_inputs_name_result by blast
  then show "name i \<noteq> []" "\<not> isspace (hd (name i))" "\<not> isspace (last (name i))"
    using strip_edges [of l] by simp_all
qed

theorem gather_inputs_name_witness:
  "fst (prompt (lit ''Project name'') []
          (empty_world\<lparr>stdin := [lit '' seismic-analysis '']\<rparr>)) = Inr (lit ''seismic-analysis'')
   \<and> isspace 0x20 \<and> \<not> isspace 0x73
   \<and> \<not> accepts 4 (lit ''abc'') \<and> py_int (strip (lit ''3'')) = Some 3
   \<and> py_int (strip (lit ''1'')) = Some 1
   \<and> (\<exists>i w'. gather_inputs
                (empty_world\<lparr>stdin := [lit ''   '', lit '' seismic-analysis '', [], lit ''abc'',
                                        lit ''3'', lit ''1'']\<rparr>) = (Inr i, w')
          \<and> name i = lit ''seismic-analysis''
          \<and> hd (name i) = 0x73 \<and> last (name i) = 0x73)"
proof -
  let ?w = "empty_world\<lparr>stdin := [lit ''   '', lit '' seismic-analysis '', [], lit ''abc'',
                                    lit ''3'', lit ''1'']\<rparr>"
  let ?v = "empty_world\<lparr>stdin := [lit '' seismic-analysis '']\<rparr>"
  have sp: "isspace 0x20" "\<not> isspace 0x73"
    by (simp_all add: isspace_def)
  have bad: "\<not> accepts 4 (lit ''abc'')"
    by (simp add: accepts_def py_int_examples)
  have "stdin ?v = lit '' seismic-analysis '' # []"
    by simp
  with gather_inputs_name [where w = ?v and l = "lit '' seismic-analysis ''" and ls = "[]"
      and q = "lit ''Project name''"]
  have 1: "fst (prompt (lit ''Project name'') [] ?v) = Inr (lit ''seismic-analysis'')"
    by (simp add: strip_examples)
  have "stdin ?w = [lit ''   ''] @ lit '' seismic-analysis '' # [] # [lit ''abc''] @ lit ''3'' # [] @ lit ''1'' # []
       \<and> (\<forall>b \<in> set [lit ''   '']. \<forall>c \<in> set b. isspace c)
       \<and> \<not> (\<forall>c \<in> set (lit '' seismic-analysis ''). isspace c)
       \<and> (\<forall>b \<in> set [lit ''abc'']. \<not> accepts 4 b)
       \<and> py_int (strip (lit ''3'')) = Some 3 \<and> (1::int) \<le> 3 \<and> (3::int) \<le> 4
       \<and> (\<forall>b \<in> set []. \<not> accepts 4 b)
       \<and> py_int (strip (lit ''1'')) = Some 1 \<and> (1::int) \<le> 1 \<and> (1::int) \<le> 4"
    using bad
    by (simp add: py_int_examples2 strip_empty_iff [symmetric] strip_examples)
  with gather_inputs_name
      [where w = ?w and blanks = "[lit ''   '']" and nm = "lit '' seismic-analysis ''"
         and d = "[]" and tbad = "[lit ''abc'']" and t = "lit ''3''" and abad = "[]"
         and a = "lit ''1''" and rest = "[]" and ti = 3 and ai = 1]
  have "\<exists>i w'. gather_inputs ?w = (Inr i, w') \<and> name i = strip (lit '' seismic-analysis '')"
    by blast
  then obtain i w' where run: "gather_inputs ?w = (Inr i, w')" "name i = lit ''seismic-analysis''"
    by (auto simp: strip_examples)
  have "hd (lit ''seismic-analysis'') = 0x73" "last (lit ''seismic-analysis'') = 0x73"
    by (simp_all add: lit_def)
  with run have 2: "\<exists>i w'. gather_inputs ?w = (Inr i, w') \<and> name i = lit ''seismic-analysis''
          \<and> hd (name i) = 0x73 \<and> last (name i) = 0x73"
    by auto
  from 1 2 sp bad show ?thesis
    by (simp add: py_int_examples2)
qed

text \<open>
  Claim C10 (amended). In a well-formed file system, every file \<open>create_project\<close> writes
  lies under the project root \<open>Path (name i)\<close>, and every directory it makes lies under
  the root or is an ancestor of the root that was missing (made with the root, since the
  directories are made with their parents). It updates the times of no entry, removes
  nothing, leaves every file it did not write as it was, and returns the root when it
  returns. As stated the claim fails: for the name \<^verbatim>\<open>a/b\<close> in the empty file system, the
  directory \<^verbatim>\<open>a\<close> is made, and its path does not start with the root.
\<close>

theorem create_project_frame:
  assumes "wf_world w" and "create_project i w = (r, w')"
  shows "(\<forall>p \<in> set (written (new_events w w')). prefix (Path (name i)) p)
       \<and> (\<forall>p \<in> set (made (new_events w w')).
             prefix (Path (name i)) p \<or> (strict_prefix p (Path (name i)) \<and> \<not> path_exists w p))
       \<and> (\<forall>p. Utime p \<notin> set (new_events w w'))
       \<and> fs_trace w' = fs_trace w @ new_events w w'
       \<and> fs_dirs w' = fs_dirs w \<union> set (made (new_events w w'))
       \<and> (\<forall>p. p \<notin> set (written (new_events w w')) \<longrightarrow> fs_files w' p = fs_files w p)
       \<and> (\<forall>q. r = Inr q \<longrightarrow> q = Path (name i))"
  using assms(1)
proof (cases rule: create_project_outcome [where i = i])
  case exists
  with assms(2) show ?thesis
    by (auto simp: new_events_def)
next
  case blocked
  with assms(2) show ?thesis
    by (auto simp: new_events_def)
next
  case fresh
  let ?root = "Path (name i)"
  let ?evs = "map Mkdir (missing w ?root) @ project_events i (clock w) ?root"
  from fresh(3) assms(2) have w': "w' = replay ?evs w" and r: "r = Inr ?root"
    by simp_all
  have "\<forall>p \<in> set (written ?evs). prefix ?root p"
    by (auto dest: written_project_events)
  moreover have "\<forall>p \<in> set (made ?evs). prefix ?root p \<or> (strict_prefix p ?root \<and> \<not> path_exists w p)"
    by (auto dest: made_project_events simp: set_missing strict_prefix_def)
  moreover have "\<forall>p. Utime p \<notin> set ?evs"
    by (auto simp: no_utime_project_events)
  moreover have "\<forall>p. p \<notin> set (written ?evs) \<longrightarrow> fs_files (replay ?evs w) p = fs_files w p"
    by (simp add: fs_files_replay_other)
  ultimately show ?thesis
    unfolding w' r new_events_replay by simp
qed

theorem create_project_frame_witness:
  "wf_world empty_world
   \<and> create_project nested empty_world
       = (Inr (Path (name nested)), snd (create_project nested empty_world))
   \<and> set (written (new_events empty_world (snd (create_project nested empty_world))))
       \<subseteq> Collect (prefix (Path (name nested)))
   \<and> fs_dirs (snd (create_project nested empty_world))
       = fs_dirs empty_world
         \<union> set (made (new_events empty_world (snd (create_project nested empty_world))))"
proof -
  have run: "create_project nested empty_world
             = (Inr (Path (name nested)), snd (create_project nested empty_world))"
    by (simp add: nested_run nested_root)
  from create_project_frame [OF wf_empty_world run] wf_empty_world run show ?thesis
    by blast
qed

theorem create_project_frame_counterexample:
  "[lit ''a''] \<in> set (made (new_events empty_world (snd (create_project nested empty_world))))
   \<and> \<not> prefix (Path (name nested)) [lit ''a'']"
  by (simp add: nested_run nested_root)

end
